theory Spec2Isabelle
  imports
    Complex_Main
    "HOL-Library.AList"
    "HOL-Library.Char_ord"
    "HOL-Library.List_Lexorder"
    "HOL-Library.Product_Lexorder"
begin

section \<open>The record store\<close>

text \<open>
  \<^verbatim>\<open>unimod_mapper.py\<close> keeps one Python dict per modification of the XML files, with the
  keys \<^verbatim>\<open>unimodID\<close>, \<^verbatim>\<open>unimodname\<close>, \<^verbatim>\<open>element\<close>, \<^verbatim>\<open>specificity\<close> and \<^verbatim>\<open>mono_mass\<close>
  (in this insertion order). The records are those of well-formed files, where every
  \<^verbatim>\<open>mod\<close> element has a title and a \<^verbatim>\<open>delta\<close>, so a record has all five keys. A
  monoisotopic mass is a Python float; it is modelled by the rational number the float
  denotes, so that \<open>=\<close> is Python's \<^verbatim>\<open>==\<close> on finite floats (NaN and the infinities
  are outside the model, and so is the binary rounding of arithmetic results). An
  elemental composition is a dict from element symbol to count, modelled as the
  association list of its items in insertion order; a dict has no key twice, and
  \<open>map_of\<close> reads the count of a symbol.
\<close>

type_synonym mass = rat

type_synonym composition = "(string \<times> int) list"

record ModificationRecord =
  unimodID :: string
  unimodname :: string
  element :: composition
  specificity :: "(string \<times> string) list"
  mono_mass :: mass

datatype py_error = KeyError | IndexError | ValueError | AssertionError | SystemExit

text \<open>
  The arguments of the lookup methods: a string, an int or a float. As dict keys Python
  identifies an int with the float of the same value (\<^verbatim>\<open>18 == 18.0\<close>, with equal
  hashes), and no string equals a number; \<open>hash_key\<close> maps an argument to the key
  it stands for.
\<close>

datatype pyval = VStr string | VInt int | VFloat mass

datatype key = KStr string | KNum mass

fun hash_key :: "pyval \<Rightarrow> key" where
  "hash_key (VStr s) = KStr s"
| "hash_key (VInt n) = KNum (of_int n)"
| "hash_key (VFloat m) = KNum m"

subsection \<open>Python's \<^verbatim>\<open>str\<close> on an int\<close>

definition digit_char :: "nat \<Rightarrow> char" where
  "digit_char d = ''0123456789'' ! d"

function str_nat :: "nat \<Rightarrow> string" where
  "str_nat n = (if n < 10 then [digit_char n] else str_nat (n div 10) @ [digit_char (n mod 10)])"
  by pat_completeness auto
termination
  by (relation "measure (\<lambda>n. n)") auto

declare str_nat.simps [simp del]

definition str_int :: "int \<Rightarrow> string" where
  "str_int i = (if i < 0 then CHR ''-'' # str_nat (nat (- i)) else str_nat (nat i))"

section \<open>The multi-key index: \<^verbatim>\<open>_initialize_mapper\<close>\<close>

text \<open>
  \<^verbatim>\<open>"{0}({1})".format(symbol, number)\<close>, and the two loops that build the Hill
  notation of a composition: first the majors C and H when the dict has them, then the
  sorted items, skipping the majors. \<^verbatim>\<open>sorted\<close> orders the (symbol, number) tuples
  lexicographically, strings by code point.
\<close>

definition fmt :: "string \<Rightarrow> int \<Rightarrow> string" where
  "fmt symbol number = symbol @ ''('' @ str_int number @ '')''"

definition MAJORS :: "string list" where
  "MAJORS = [''C'', ''H'']"

fun majors_loop :: "composition \<Rightarrow> string list \<Rightarrow> string \<Rightarrow> string" where
  "majors_loop d [] hill = hill"
| "majors_loop d (major # rest) hill =
     (case map_of d major of
        Some number \<Rightarrow> majors_loop d rest (hill @ fmt major number)
      | None \<Rightarrow> majors_loop d rest hill)"

fun items_loop :: "(string \<times> int) list \<Rightarrow> string \<Rightarrow> string" where
  "items_loop [] hill = hill"
| "items_loop ((symbol, number) # rest) hill =
     (if symbol \<in> set MAJORS then items_loop rest hill
      else items_loop rest (hill @ fmt symbol number))"

definition hill_notation :: "composition \<Rightarrow> string" where
  "hill_notation d = items_loop (sort d) (majors_loop d MAJORS [])"

text \<open>
  The index is a dict from key to the list of record positions.
  \<open>register\<close> is the pair of statements
  \<^verbatim>\<open>if k not in mapper.keys(): mapper[k] = []\<close> and \<^verbatim>\<open>mapper[k].append(index)\<close>.
\<close>

type_synonym index_map = "key \<rightharpoonup> nat list"

definition register :: "index_map \<Rightarrow> key \<Rightarrow> nat \<Rightarrow> index_map" where
  "register mapper k index =
     mapper(k \<mapsto> (case mapper k of None \<Rightarrow> [] | Some index_list \<Rightarrow> index_list) @ [index])"

text \<open>
  The inner loop over the items of one record: \<^verbatim>\<open>unimodID\<close> and \<^verbatim>\<open>unimodname\<close> are
  registered as they are, \<^verbatim>\<open>element\<close> through its Hill notation, \<^verbatim>\<open>specificity\<close> is
  passed over, \<^verbatim>\<open>mono_mass\<close> is registered as it is.
\<close>

definition index_record :: "index_map \<Rightarrow> nat \<Rightarrow> ModificationRecord \<Rightarrow> index_map" where
  "index_record mapper index unimod_data_dict =
     (let m1 = register mapper (KStr (unimodID unimod_data_dict)) index;
          m2 = register m1 (KStr (unimodname unimod_data_dict)) index;
          m3 = register m2 (KStr (hill_notation (element unimod_data_dict))) index;
          m4 = register m3 (KNum (mono_mass unimod_data_dict)) index
      in m4)"

fun initialize_loop :: "index_map \<Rightarrow> nat \<Rightarrow> ModificationRecord list \<Rightarrow> index_map" where
  "initialize_loop mapper index [] = mapper"
| "initialize_loop mapper index (unimod_data_dict # rest) =
     initialize_loop (index_record mapper index unimod_data_dict) (Suc index) rest"

definition initialize_mapper :: "ModificationRecord list \<Rightarrow> index_map" where
  "initialize_mapper data_list = initialize_loop Map.empty 0 data_list"

section \<open>The lookup facade\<close>

text \<open>
  The lookup methods read the two lazily built properties of the class,
  \<^verbatim>\<open>self.mapper\<close> and \<^verbatim>\<open>self.data_list\<close>. An \<open>engine\<close> holds the values the two
  properties evaluate to; \<open>built data_list\<close> is the engine of an instance whose
  index was built by \<^verbatim>\<open>_initialize_mapper\<close> from its record store. Both properties have
  setters, so the methods are defined for any pair of values.
\<close>

record engine =
  data_list :: "ModificationRecord list"
  mapper :: index_map

definition built :: "ModificationRecord list \<Rightarrow> engine" where
  "built dl = \<lparr>data_list = dl, mapper = initialize_mapper dl\<rparr>"

definition bind :: "py_error + 'a \<Rightarrow> ('a \<Rightarrow> py_error + 'b) \<Rightarrow> py_error + 'b" where
  "bind r f = (case r of Inl err \<Rightarrow> Inl err | Inr v \<Rightarrow> f v)"

text \<open>
  \<^verbatim>\<open>_data_list_2_value(index, return_key)\<close> is \<^verbatim>\<open>self.data_list[index][return_key]\<close>;
  the return key is modelled by the field selector. Positions are never negative, so the
  list access raises exactly when the position is past the end.
\<close>

definition data_list_2_value :: "engine \<Rightarrow> nat \<Rightarrow> (ModificationRecord \<Rightarrow> 'a) \<Rightarrow> py_error + 'a" where
  "data_list_2_value self index return_key =
     (if index < length (data_list self) then Inr (return_key (data_list self ! index))
      else Inl IndexError)"

text \<open>
  The loop \<^verbatim>\<open>for index in index_list: list_2_return.append(self._data_list_2_value(index, k))\<close>.
\<close>

fun append_values ::
  "engine \<Rightarrow> (ModificationRecord \<Rightarrow> 'a) \<Rightarrow> nat list \<Rightarrow> 'a list \<Rightarrow> py_error + 'a list" where
  "append_values self return_key [] list_2_return = Inr list_2_return"
| "append_values self return_key (index # rest) list_2_return =
     bind (data_list_2_value self index return_key)
       (\<lambda>v. append_values self return_key rest (list_2_return @ [v]))"

text \<open>Python's \<^verbatim>\<open>min\<close> of a list: a ValueError on the empty list.\<close>

fun py_min :: "nat list \<Rightarrow> py_error + nat" where
  "py_min [] = Inl ValueError"
| "py_min (x # xs) = Inr (fold min xs x)"

subsection \<open>name 2 ...\<close>

definition name2mass_list :: "engine \<Rightarrow> pyval \<Rightarrow> py_error + mass list" where
  "name2mass_list self unimod_name =
     (case mapper self (hash_key unimod_name) of
        None \<Rightarrow> Inr []
      | Some index_list \<Rightarrow> append_values self mono_mass index_list [])"

definition name2first_mass :: "engine \<Rightarrow> pyval \<Rightarrow> py_error + mass option" where
  "name2first_mass self unimod_name =
     (case mapper self (hash_key unimod_name) of
        None \<Rightarrow> Inr None
      | Some index_list \<Rightarrow>
          bind (py_min index_list) (\<lambda>index.
          bind (data_list_2_value self index mono_mass) (\<lambda>rval. Inr (Some rval))))"

definition name2composition_list :: "engine \<Rightarrow> pyval \<Rightarrow> py_error + composition list" where
  "name2composition_list self unimod_name =
     (case mapper self (hash_key unimod_name) of
        None \<Rightarrow> Inr []
      | Some index_list \<Rightarrow> append_values self element index_list [])"

definition name2first_composition :: "engine \<Rightarrow> pyval \<Rightarrow> py_error + composition option" where
  "name2first_composition self unimod_name =
     (case mapper self (hash_key unimod_name) of
        None \<Rightarrow> Inr None
      | Some index_list \<Rightarrow>
          bind (py_min index_list) (\<lambda>index.
          bind (data_list_2_value self index element) (\<lambda>rval. Inr (Some rval))))"

definition name2id_list :: "engine \<Rightarrow> pyval \<Rightarrow> py_error + string list" where
  "name2id_list self unimod_name =
     (case mapper self (hash_key unimod_name) of
        None \<Rightarrow> Inr []
      | Some index_list \<Rightarrow> append_values self unimodID index_list [])"

definition name2first_id :: "engine \<Rightarrow> pyval \<Rightarrow> py_error + string option" where
  "name2first_id self unimod_name =
     (case mapper self (hash_key unimod_name) of
        None \<Rightarrow> Inr None
      | Some index_list \<Rightarrow>
          bind (py_min index_list) (\<lambda>index.
          bind (data_list_2_value self index unimodID) (\<lambda>rval. Inr (Some rval))))"

definition name2specificity_list ::
  "engine \<Rightarrow> pyval \<Rightarrow> py_error + (string \<times> string) list list" where
  "name2specificity_list self unimod_name =
     (case mapper self (hash_key unimod_name) of
        None \<Rightarrow> Inr []
      | Some index_list \<Rightarrow> append_values self specificity index_list [])"

subsection \<open>unimodid 2 ...\<close>

text \<open>\<^verbatim>\<open>if isinstance(unimod_id, int) is True: unimod_id = str(unimod_id)\<close>\<close>

fun id_as_str :: "pyval \<Rightarrow> pyval" where
  "id_as_str (VInt n) = VStr (str_int n)"
| "id_as_str v = v"

definition id2mass_list :: "engine \<Rightarrow> pyval \<Rightarrow> py_error + mass list" where
  "id2mass_list self unimod_id =
     (case mapper self (hash_key (id_as_str unimod_id)) of
        None \<Rightarrow> Inr []
      | Some index_list \<Rightarrow> append_values self mono_mass index_list [])"

definition id2first_mass :: "engine \<Rightarrow> pyval \<Rightarrow> py_error + mass option" where
  "id2first_mass self unimod_id =
     (case mapper self (hash_key (id_as_str unimod_id)) of
        None \<Rightarrow> Inr None
      | Some index_list \<Rightarrow>
          bind (py_min index_list) (\<lambda>index.
          bind (data_list_2_value self index mono_mass) (\<lambda>rval. Inr (Some rval))))"

definition id2composition_list :: "engine \<Rightarrow> pyval \<Rightarrow> py_error + composition list" where
  "id2composition_list self unimod_id =
     (case mapper self (hash_key (id_as_str unimod_id)) of
        None \<Rightarrow> Inr []
      | Some index_list \<Rightarrow> append_values self element index_list [])"

definition id2first_composition :: "engine \<Rightarrow> pyval \<Rightarrow> py_error + composition option" where
  "id2first_composition self unimod_id =
     (case mapper self (hash_key (id_as_str unimod_id)) of
        None \<Rightarrow> Inr None
      | Some index_list \<Rightarrow>
          bind (py_min index_list) (\<lambda>index.
          bind (data_list_2_value self index element) (\<lambda>rval. Inr (Some rval))))"

definition id2name_list :: "engine \<Rightarrow> pyval \<Rightarrow> py_error + string list" where
  "id2name_list self unimod_id =
     (case mapper self (hash_key (id_as_str unimod_id)) of
        None \<Rightarrow> Inr []
      | Some index_list \<Rightarrow> append_values self unimodname index_list [])"

definition id2first_name :: "engine \<Rightarrow> pyval \<Rightarrow> py_error + string option" where
  "id2first_name self unimod_id =
     (case mapper self (hash_key (id_as_str unimod_id)) of
        None \<Rightarrow> Inr None
      | Some index_list \<Rightarrow>
          bind (py_min index_list) (\<lambda>index.
          bind (data_list_2_value self index unimodname) (\<lambda>rval. Inr (Some rval))))"

subsection \<open>mass 2 ...\<close>

text \<open>
  \<^verbatim>\<open>mass2name_list\<close> and \<^verbatim>\<open>mass2composition_list\<close> subscript the dict
  (\<^verbatim>\<open>self.mapper[mass]\<close>), which raises KeyError on a missing key;
  \<^verbatim>\<open>mass2id_list\<close> uses \<^verbatim>\<open>self.mapper.get(mass, None)\<close> as the other methods do.
\<close>

definition mass2name_list :: "engine \<Rightarrow> pyval \<Rightarrow> py_error + string list" where
  "mass2name_list self mass =
     (case mapper self (hash_key mass) of
        None \<Rightarrow> Inl KeyError
      | Some index_list \<Rightarrow> append_values self unimodname index_list [])"

definition mass2id_list :: "engine \<Rightarrow> pyval \<Rightarrow> py_error + string list" where
  "mass2id_list self mass =
     (case mapper self (hash_key mass) of
        None \<Rightarrow> Inr []
      | Some index_list \<Rightarrow> append_values self unimodID index_list [])"

definition mass2composition_list :: "engine \<Rightarrow> pyval \<Rightarrow> py_error + composition list" where
  "mass2composition_list self mass =
     (case mapper self (hash_key mass) of
        None \<Rightarrow> Inl KeyError
      | Some index_list \<Rightarrow> append_values self element index_list [])"

subsection \<open>composition 2 ...\<close>

definition composition2name_list :: "engine \<Rightarrow> pyval \<Rightarrow> py_error + string list" where
  "composition2name_list self composition =
     (case mapper self (hash_key composition) of
        None \<Rightarrow> Inr []
      | Some index_list \<Rightarrow> append_values self unimodname index_list [])"

definition composition2id_list :: "engine \<Rightarrow> pyval \<Rightarrow> py_error + string list" where
  "composition2id_list self composition =
     (case mapper self (hash_key composition) of
        None \<Rightarrow> Inr []
      | Some index_list \<Rightarrow> append_values self unimodID index_list [])"

text \<open>
  \<^verbatim>\<open>assert len(set(list_2_return)) == 1\<close>, then \<^verbatim>\<open>list_2_return[0]\<close>.
\<close>

definition composition2mass :: "engine \<Rightarrow> pyval \<Rightarrow> py_error + mass option" where
  "composition2mass self composition =
     (case mapper self (hash_key composition) of
        None \<Rightarrow> Inr None
      | Some index_list \<Rightarrow>
          bind (append_values self mono_mass index_list []) (\<lambda>list_2_return.
            if length (remdups list_2_return) = 1
            then (case list_2_return of [] \<Rightarrow> Inl IndexError | m # _ \<Rightarrow> Inr (Some m))
            else Inl AssertionError))"

subsection \<open>approximate mass 2 ...\<close>









section \<open>The XML files: \<^verbatim>\<open>_parseXML\<close>, \<^verbatim>\<open>writeXML\<close>, \<^verbatim>\<open>_reparseXML\<close>\<close>

text \<open>
  A file is modelled by what the start/end event loop of \<^verbatim>\<open>_parseXML\<close> reads from it: the
  sequence of its \<^verbatim>\<open>mod\<close> elements, each with the attributes \<^verbatim>\<open>record_id\<close> (optional)
  and \<^verbatim>\<open>title\<close>, the \<^verbatim>\<open>mono_mass\<close> of its \<^verbatim>\<open>delta\<close>, the (symbol, number) attributes of
  the \<^verbatim>\<open>element\<close> children of the delta and the (site, classification) attributes of its
  \<^verbatim>\<open>specificity\<close> children, in document order. Attribute texts are represented by the
  values \<^verbatim>\<open>float\<close> and \<^verbatim>\<open>int\<close> read from them; \<^verbatim>\<open>str\<close> followed by \<^verbatim>\<open>float\<close> or
  \<^verbatim>\<open>int\<close> gives the number back, so \<^verbatim>\<open>writeXML\<close> stores the number itself. The
  serialisation by ElementTree and minidom is not modelled.
\<close>

record xml_mod =
  record_id :: "string option"
  title :: string
  delta_mono_mass :: mass
  delta_elements :: "(string \<times> int) list"
  specificities :: "(string \<times> string) list"

type_synonym path = string

type_synonym files = "path \<rightharpoonup> xml_mod list"

text \<open>
  \<^verbatim>\<open>number = int(element.attrib["number"])\<close>;
  \<^verbatim>\<open>if number != 0: tmp["element"][element.attrib["symbol"]] = number\<close>. Assigning to a dict
  key keeps the place of a key that is there and appends a new one.
\<close>

fun collect_elements :: "(string \<times> int) list \<Rightarrow> composition \<Rightarrow> composition" where
  "collect_elements [] d = d"
| "collect_elements ((symbol, number) # rest) d =
     (if number \<noteq> 0 then collect_elements rest (AList.update symbol number d)
      else collect_elements rest d)"

text \<open>
  \<^verbatim>\<open>if classification != "Artefact": tmp["specificity"].append((amino_acid, classification))\<close>
\<close>

fun collect_specificity ::
  "(string \<times> string) list \<Rightarrow> (string \<times> string) list \<Rightarrow> (string \<times> string) list" where
  "collect_specificity [] sp = sp"
| "collect_specificity ((amino_acid, classification) # rest) sp =
     (if classification \<noteq> ''Artefact''
      then collect_specificity rest (sp @ [(amino_acid, classification)])
      else collect_specificity rest sp)"

definition parse_mod :: "xml_mod \<Rightarrow> ModificationRecord" where
  "parse_mod m =
     \<lparr>unimodID = (case record_id m of Some unimodid \<Rightarrow> unimodid | None \<Rightarrow> []),
      unimodname = title m,
      element = collect_elements (delta_elements m) [],
      specificity = collect_specificity (specificities m) [],
      mono_mass = delta_mono_mass m\<rparr>"

text \<open>
  Paths are strings with \<^verbatim>\<open>/\<close> as separator: \<open>path_name\<close> is \<^verbatim>\<open>Path.name\<close>, the
  last component, and \<open>joinpath\<close> is \<^verbatim>\<open>parent / p\<close>, which is \<open>p\<close> itself when
  \<open>p\<close> is absolute.
\<close>

definition path_name :: "path \<Rightarrow> string" where
  "path_name p = rev (takeWhile (\<lambda>c. c \<noteq> CHR ''/'') (rev p))"

definition joinpath :: "path \<Rightarrow> path \<Rightarrow> path" where
  "joinpath parent p =
     (case p of [] \<Rightarrow> parent
      | c # _ \<Rightarrow> (if c = CHR ''/'' then p else parent @ ''/'' @ p))"

text \<open>
  The loop of \<^verbatim>\<open>_parseXML\<close> over the files: an existing file adds its records; a missing
  \<^verbatim>\<open>unimod.xml\<close> ends the process (\<^verbatim>\<open>sys.exit(1)\<close>), a missing \<^verbatim>\<open>usermod.xml\<close> is
  skipped, any other missing file ends the process.
\<close>

fun parseXML_loop ::
  "files \<Rightarrow> path list \<Rightarrow> ModificationRecord list \<Rightarrow> py_error + ModificationRecord list" where
  "parseXML_loop fs [] records = Inr records"
| "parseXML_loop fs (xml_path # rest) records =
     (case fs xml_path of
        Some mods \<Rightarrow> parseXML_loop fs rest (records @ map parse_mod mods)
      | None \<Rightarrow>
          if path_name xml_path = ''unimod.xml'' then Inl SystemExit
          else if path_name xml_path = ''usermod.xml'' then parseXML_loop fs rest records
          else Inl SystemExit)"

definition parseXML :: "files \<Rightarrow> path list \<Rightarrow> py_error + ModificationRecord list" where
  "parseXML fs xml_file_list = parseXML_loop fs xml_file_list []"

text \<open>
  The instance: the two caches \<^verbatim>\<open>_data_list\<close> and \<^verbatim>\<open>_mapper\<close> (\<open>None\<close> until built) and
  \<^verbatim>\<open>unimod_xml_names\<close>. \<open>init\<close> is \<^verbatim>\<open>__init__\<close> for a package directory that holds
  \<^verbatim>\<open>unimod.xml\<close> (the download of a missing file is not modelled).
\<close>

record UnimodMapper =
  u_data_list :: "ModificationRecord list option"
  u_mapper :: "index_map option"
  unimod_xml_names :: "path list"

definition init :: "path \<Rightarrow> path list \<Rightarrow> UnimodMapper" where
  "init package_dir xml_file_list =
     (let names = map path_name xml_file_list;
          l1 = (if ''usermod.xml'' \<notin> set names
                then xml_file_list @ [joinpath package_dir ''usermod.xml''] else xml_file_list);
          l2 = (if ''unimod.xml'' \<notin> set names
                then l1 @ [joinpath package_dir ''unimod.xml''] else l1)
      in \<lparr>u_data_list = None, u_mapper = None, unimod_xml_names = l2\<rparr>)"

text \<open>The properties \<^verbatim>\<open>data_list\<close> and \<^verbatim>\<open>mapper\<close>: built on first use, then cached.\<close>

definition data_list_property ::
  "files \<Rightarrow> UnimodMapper \<Rightarrow> py_error + (ModificationRecord list \<times> UnimodMapper)" where
  "data_list_property fs self =
     (case u_data_list self of
        None \<Rightarrow> bind (parseXML fs (unimod_xml_names self))
                  (\<lambda>dl. Inr (dl, self\<lparr>u_data_list := Some dl\<rparr>))
      | Some dl \<Rightarrow> Inr (dl, self))"

definition mapper_property ::
  "files \<Rightarrow> UnimodMapper \<Rightarrow> py_error + (index_map \<times> UnimodMapper)" where
  "mapper_property fs self =
     (case u_mapper self of
        None \<Rightarrow> bind (data_list_property fs self)
                  (\<lambda>(dl, self1).
                     Inr (initialize_mapper dl, self1\<lparr>u_mapper := Some (initialize_mapper dl)\<rparr>))
      | Some m \<Rightarrow> Inr (m, self))"

text \<open>
  What a lookup method sees: it reads \<^verbatim>\<open>self.mapper\<close> first and \<^verbatim>\<open>self.data_list\<close> after.
\<close>

definition properties :: "files \<Rightarrow> UnimodMapper \<Rightarrow> py_error + (engine \<times> UnimodMapper)" where
  "properties fs self =
     bind (mapper_property fs self) (\<lambda>(m, self1).
     bind (data_list_property fs self1) (\<lambda>(dl, self2).
       Inr (\<lparr>data_list = dl, mapper = m\<rparr>, self2)))"

definition reparseXML :: "files \<Rightarrow> UnimodMapper \<Rightarrow> path list \<Rightarrow> py_error + UnimodMapper" where
  "reparseXML fs self xml_file_list =
     bind (parseXML fs xml_file_list) (\<lambda>dl.
       Inr (self\<lparr>u_data_list := Some dl, u_mapper := Some (initialize_mapper dl)\<rparr>))"

text \<open>
  The argument of \<^verbatim>\<open>writeXML\<close>, a dict with the keys \<^verbatim>\<open>mass\<close>, \<^verbatim>\<open>name\<close>,
  \<^verbatim>\<open>composition\<close> and, optionally, \<^verbatim>\<open>id\<close> (the fields carry the prefix \<open>md_\<close>).
\<close>

record modification_dict =
  md_mass :: mass
  md_name :: string
  md_composition :: composition
  md_id :: "string option"

text \<open>\<^verbatim>\<open>mod_dicts.insert(-1, mod_dict)\<close>: before the last element.\<close>

definition insert_before_last :: "'a list \<Rightarrow> 'a \<Rightarrow> 'a list" where
  "insert_before_last xs x = (if xs = [] then [x] else butlast xs @ [x, last xs])"

fun insert_loop ::
  "ModificationRecord list \<Rightarrow> modification_dict list \<Rightarrow> modification_dict list" where
  "insert_loop [] mod_dicts = mod_dicts"
| "insert_loop (data_dict # rest) mod_dicts =
     insert_loop rest
       (insert_before_last mod_dicts
          \<lparr>md_mass = mono_mass data_dict, md_name = unimodname data_dict,
           md_composition = element data_dict, md_id = Some (unimodID data_dict)\<rparr>)"

text \<open>
  One \<^verbatim>\<open>mod\<close> element of the written file; a missing id becomes
  \<^verbatim>\<open>"u{0}".format(len(mod_dicts))\<close>.
\<close>

definition write_mod :: "nat \<Rightarrow> modification_dict \<Rightarrow> xml_mod" where
  "write_mod n modification_dict =
     \<lparr>record_id = Some (case md_id modification_dict of
                          None \<Rightarrow> ''u'' @ str_int (int n) | Some i \<Rightarrow> i),
      title = md_name modification_dict,
      delta_mono_mass = md_mass modification_dict,
      delta_elements = md_composition modification_dict,
      specificities = []\<rparr>"

definition writeXML ::
  "path \<Rightarrow> files \<Rightarrow> UnimodMapper \<Rightarrow> modification_dict \<Rightarrow> path option
     \<Rightarrow> py_error + (files \<times> UnimodMapper)" where
  "writeXML package_dir fs self modification_dict xml_file_arg =
     (let xml_file = (case xml_file_arg of None \<Rightarrow> joinpath package_dir ''usermod.xml''
                                         | Some p \<Rightarrow> p)
      in bind (case fs xml_file of
                 None \<Rightarrow> Inr [modification_dict]
               | Some _ \<Rightarrow> bind (parseXML fs [xml_file])
                             (\<lambda>old. Inr (insert_loop old [modification_dict])))
           (\<lambda>mod_dicts.
              let fs' = fs(xml_file \<mapsto> map (write_mod (length mod_dicts)) mod_dicts);
                  xml_list = map (joinpath package_dir) (unimod_xml_names self) @ [xml_file]
              in bind (reparseXML fs' self xml_list) (\<lambda>self'. Inr (fs', self'))))"

section \<open>The request reconciler: \<^verbatim>\<open>map_mods\<close>\<close>

text \<open>
  Modelled from the spec: the method \<^verbatim>\<open>map_mods\<close> of the class is called by
  \<^verbatim>\<open>tests/test_map_mods.py\<close> and is not in \<^verbatim>\<open>unimod_mapper.py\<close>. The
  request of section 3 of the specification: a site \<open>aa\<close> (\<^verbatim>\<open>*\<close> for any), one of the two
  classifications (the test data write them \<^verbatim>\<open>fix\<close> and \<^verbatim>\<open>opt\<close>), a position qualifier,
  exactly one of name and id as resolution key, and the neutral-loss hint (absent, a
  numeric literal, or the sentinel asking for the dataset's value).
\<close>

datatype classification = Fixed | Variable

datatype resolution_key = ByName string | ById pyval

datatype neutral_loss_hint = NoHint | Literal mass | UseDataset

record ModificationRequest =
  aa :: string
  mod_type :: classification
  position :: string
  resolution_key :: resolution_key
  neutral_loss :: neutral_loss_hint

text \<open>
  Modelled from the spec: the resolved neutral loss of section 4.3, step 4 (no value, an
  empty list, or a numeric string), and the result record of section 3; \<open>seq_id\<close> is
  its field \<^verbatim>\<open>_id\<close>.
\<close>

datatype neutral_loss_value = NoValue | EmptyList | LossString string

record MappedModification =
  mm_aa :: string
  mm_position :: string
  mm_name :: string
  mm_mass :: mass
  mm_composition :: composition
  mm_id :: pyval
  mm_neutral_loss :: neutral_loss_value
  seq_id :: nat
  org :: ModificationRequest
  unimod :: bool

record reconciled =
  fixed :: "MappedModification list"
  variable :: "MappedModification list"

text \<open>
  Modelled from the spec: section 4.3, step 2, the test a record has to pass for a
  request keyed by name. The site \<^verbatim>\<open>*\<close> matches any site, another site has to be one
  of the record's specificity sites. The specification does not say how a record
  corresponds to the position qualifier, and a record carries no position: the
  correspondence is the parameter \<open>position_ok\<close>.
\<close>

definition site_matches ::
  "(string \<Rightarrow> ModificationRecord \<Rightarrow> bool) \<Rightarrow> ModificationRequest \<Rightarrow> ModificationRecord \<Rightarrow> bool" where
  "site_matches position_ok req r =
     ((aa req = ''*'' \<or> aa req \<in> fst ` set (specificity r)) \<and> position_ok (position req) r)"

text \<open>
  Modelled from the spec: section 4.3, step 2, the selection among the positions the
  index lists under the name, in index order.
\<close>

fun select_loop ::
  "(string \<Rightarrow> ModificationRecord \<Rightarrow> bool) \<Rightarrow> engine \<Rightarrow> ModificationRequest \<Rightarrow> nat list
     \<Rightarrow> py_error + ModificationRecord option" where
  "select_loop position_ok self req [] = Inr None"
| "select_loop position_ok self req (index # rest) =
     bind (data_list_2_value self index (\<lambda>r. r)) (\<lambda>r.
       if site_matches position_ok req r then Inr (Some r)
       else select_loop position_ok self req rest)"

text \<open>
  Modelled from the spec: section 4.3, steps 2 and 3. A request keyed by name gets the
  selected record and the dataset's string id; a request keyed by id is looked up under
  the string form of the id, gets the record at the lowest position, and keeps the id as
  the caller wrote it. \<open>None\<close> is a request that resolves to no record.
\<close>

definition resolve ::
  "(string \<Rightarrow> ModificationRecord \<Rightarrow> bool) \<Rightarrow> engine \<Rightarrow> ModificationRequest
     \<Rightarrow> py_error + (ModificationRecord \<times> pyval) option" where
  "resolve position_ok self req =
     (case resolution_key req of
        ByName n \<Rightarrow>
          (case mapper self (KStr n) of
             None \<Rightarrow> Inr None
           | Some index_list \<Rightarrow>
               bind (select_loop position_ok self req index_list) (\<lambda>found.
                 Inr (map_option (\<lambda>r. (r, VStr (unimodID r))) found)))
      | ById v \<Rightarrow>
          (case mapper self (hash_key (id_as_str v)) of
             None \<Rightarrow> Inr None
           | Some index_list \<Rightarrow>
               bind (py_min index_list) (\<lambda>index.
               bind (data_list_2_value self index (\<lambda>r. r)) (\<lambda>r. Inr (Some (r, v))))))"

text \<open>
  Modelled from the spec: section 4.3, step 4. The neutral loss is no value without a
  hint and the empty list for a literal (the expected result of
  \<^verbatim>\<open>test_unode_map_mods_nl\<close> keeps the literal instead; the wording of the
  specification is followed); for the sentinel it comes from the dataset's neutral-loss
  data for the record and the site, which the specification leaves open: the parameter
  \<open>dataset_loss\<close>.
\<close>

definition resolve_neutral_loss ::
  "(ModificationRecord \<Rightarrow> string \<Rightarrow> neutral_loss_value) \<Rightarrow> ModificationRequest
     \<Rightarrow> ModificationRecord \<Rightarrow> neutral_loss_value" where
  "resolve_neutral_loss dataset_loss req r =
     (case neutral_loss req of
        NoHint \<Rightarrow> NoValue
      | Literal x \<Rightarrow> EmptyList
      | UseDataset \<Rightarrow> dataset_loss r (aa req))"

text \<open>
  Modelled from the spec: section 4.3, step 4, and the result record of section 3. The
  site and the position are the request's, the name, mass and composition are the
  record's, \<^verbatim>\<open>_id\<close> is the position of the request in the input list, \<^verbatim>\<open>org\<close> the
  request, and \<^verbatim>\<open>unimod\<close> is true.
\<close>

definition mapped_modification ::
  "(ModificationRecord \<Rightarrow> string \<Rightarrow> neutral_loss_value) \<Rightarrow> nat \<Rightarrow> ModificationRequest
     \<Rightarrow> ModificationRecord \<Rightarrow> pyval \<Rightarrow> MappedModification" where
  "mapped_modification dataset_loss index req r idv =
     \<lparr>mm_aa = aa req, mm_position = position req, mm_name = unimodname r,
      mm_mass = mono_mass r, mm_composition = element r, mm_id = idv,
      mm_neutral_loss = resolve_neutral_loss dataset_loss req r,
      seq_id = index, org = req, unimod = True\<rparr>"

text \<open>
  Modelled from the spec: section 4.3, step 5, the list a resolved request is appended
  to.
\<close>

definition append_by_type :: "classification \<Rightarrow> MappedModification \<Rightarrow> reconciled \<Rightarrow> reconciled" where
  "append_by_type t m rdict =
     (case t of Fixed \<Rightarrow> rdict\<lparr>fixed := fixed rdict @ [m]\<rparr>
              | Variable \<Rightarrow> rdict\<lparr>variable := variable rdict @ [m]\<rparr>)"

text \<open>
  Modelled from the spec: section 4.3, steps 1, 5 and 6. The requests are visited in
  order with their zero-based position; a resolved one is appended to the list of its
  classification, an unresolved one is passed over.
\<close>

fun map_mods_loop ::
  "(string \<Rightarrow> ModificationRecord \<Rightarrow> bool) \<Rightarrow> (ModificationRecord \<Rightarrow> string \<Rightarrow> neutral_loss_value)
     \<Rightarrow> engine \<Rightarrow> nat \<Rightarrow> ModificationRequest list \<Rightarrow> reconciled \<Rightarrow> py_error + reconciled" where
  "map_mods_loop position_ok dataset_loss self index [] rdict = Inr rdict"
| "map_mods_loop position_ok dataset_loss self index (req # rest) rdict =
     bind (resolve position_ok self req) (\<lambda>found.
       case found of
         None \<Rightarrow> map_mods_loop position_ok dataset_loss self (Suc index) rest rdict
       | Some (r, idv) \<Rightarrow>
           map_mods_loop position_ok dataset_loss self (Suc index) rest
             (append_by_type (mod_type req)
                (mapped_modification dataset_loss index req r idv) rdict))"

text \<open>
  Modelled from the spec: the contract of section 4.3, from the ordered request list to
  the two ordered lists, both empty at the start.
\<close>

definition map_mods ::
  "(string \<Rightarrow> ModificationRecord \<Rightarrow> bool) \<Rightarrow> (ModificationRecord \<Rightarrow> string \<Rightarrow> neutral_loss_value)
     \<Rightarrow> engine \<Rightarrow> ModificationRequest list \<Rightarrow> py_error + reconciled" where
  "map_mods position_ok dataset_loss self mod_list =
     map_mods_loop position_ok dataset_loss self 0 mod_list \<lparr>fixed = [], variable = []\<rparr>"

section \<open>Notions used to state the properties\<close>

text \<open>
  The keys one record is registered under, the positions of the records that carry a
  key, and the list the index holds for a key: each position once per attribute of the
  record that equals the key, in store order.
\<close>

definition record_keys :: "ModificationRecord \<Rightarrow> key list" where
  "record_keys r =
     [KStr (unimodID r), KStr (unimodname r), KStr (hill_notation (element r)), KNum (mono_mass r)]"

definition positions :: "ModificationRecord list \<Rightarrow> key \<Rightarrow> nat set" where
  "positions dl k = {i. i < length dl \<and> k \<in> set (record_keys (dl ! i))}"

fun hits :: "key \<Rightarrow> nat \<Rightarrow> ModificationRecord list \<Rightarrow> nat list" where
  "hits k i [] = []"
| "hits k i (r # rs) = replicate (count_list (record_keys r) k) i @ hits k (Suc i) rs"

text \<open>
  What a first-variant lookup is to return for a key: nothing when no record carries
  the key, else the attribute of the record at the lowest position that carries it.
\<close>

definition lowest_match ::
  "ModificationRecord list \<Rightarrow> key \<Rightarrow> (ModificationRecord \<Rightarrow> 'a) \<Rightarrow> 'a option" where
  "lowest_match dl k attribute =
     (if positions dl k = {} then None else Some (attribute (dl ! Min (positions dl k))))"

text \<open>The distinct masses of the records that carry a key.\<close>

definition matched_masses :: "ModificationRecord list \<Rightarrow> key \<Rightarrow> mass set" where
  "matched_masses dl k = (\<lambda>i. mono_mass (dl ! i)) ` positions dl k"

text \<open>
  Three records of Unimod with the id, name, mass and composition that the expected
  results of \<^verbatim>\<open>tests/test_map_mods.py\<close> show, in the order of their ids 1, 4 and 35;
  the specificity lists are illustrative.
\<close>

definition acetyl :: ModificationRecord where
  "acetyl = \<lparr>unimodID = ''1'', unimodname = ''Acetyl'',
     element = [(''H'', 2), (''C'', 2), (''O'', 1)],
     specificity = [(''K'', ''Multiple''), (''N-term'', ''Multiple''), (''C'', ''Post-translational'')],
     mono_mass = 42010565 / 1000000\<rparr>"

definition carbamidomethyl :: ModificationRecord where
  "carbamidomethyl = \<lparr>unimodID = ''4'', unimodname = ''Carbamidomethyl'',
     element = [(''H'', 3), (''C'', 2), (''N'', 1), (''O'', 1)],
     specificity = [(''C'', ''Chemical derivative''), (''M'', ''Chemical derivative'')],
     mono_mass = 57021464 / 1000000\<rparr>"

definition oxidation :: ModificationRecord where
  "oxidation = \<lparr>unimodID = ''35'', unimodname = ''Oxidation'',
     element = [(''O'', 1)],
     specificity = [(''M'', ''Chemical derivative''), (''W'', ''Post-translational'')],
     mono_mass = 15994915 / 1000000\<rparr>"

definition unimod3 :: "ModificationRecord list" where
  "unimod3 = [acetyl, carbamidomethyl, oxidation]"

text \<open>A store in which one composition has two masses.\<close>

definition two_masses :: "ModificationRecord list" where
  "two_masses = [oxidation, oxidation\<lparr>unimodID := ''36'', unimodname := ''Other'', mono_mass := 16\<rparr>]"

text \<open>A record whose id and name are the same string, as a user-defined one may be.\<close>

definition same_id_and_name :: ModificationRecord where
  "same_id_and_name = \<lparr>unimodID = ''u1'', unimodname = ''u1'',
     element = [(''C'', 1)], specificity = [], mono_mass = 12\<rparr>"



text \<open>
  What \<open>map_mods\<close> is to put in the list of one classification: for each request
  of that classification that resolves, in input order and numbered from \<open>start\<close>,
  the annotated record.
\<close>

definition expected_list ::
  "(string \<Rightarrow> ModificationRecord \<Rightarrow> bool) \<Rightarrow> (ModificationRecord \<Rightarrow> string \<Rightarrow> neutral_loss_value)
     \<Rightarrow> engine \<Rightarrow> classification \<Rightarrow> nat \<Rightarrow> ModificationRequest list \<Rightarrow> MappedModification list" where
  "expected_list position_ok dataset_loss self t start mod_list =
     concat (map (\<lambda>(i, req).
        case resolve position_ok self req of
          Inr (Some (r, idv)) \<Rightarrow>
            if mod_type req = t then [mapped_modification dataset_loss i req r idv] else []
        | _ \<Rightarrow> []) (enumerate start mod_list))"

text \<open>
  The requests and the expected result of \<^verbatim>\<open>test_unode_map_mods\<close>, and the two requests of
  \<^verbatim>\<open>test_unode_map_mods_mod_not_in_unimod\<close>.
\<close>

definition request_oxidation :: ModificationRequest where
  "request_oxidation = \<lparr>aa = ''M'', mod_type = Variable, position = ''any'',
     resolution_key = ByName ''Oxidation'', neutral_loss = NoHint\<rparr>"

definition request_carbamidomethyl :: ModificationRequest where
  "request_carbamidomethyl = \<lparr>aa = ''C'', mod_type = Fixed, position = ''any'',
     resolution_key = ByName ''Carbamidomethyl'', neutral_loss = NoHint\<rparr>"

definition request_acetyl :: ModificationRequest where
  "request_acetyl = \<lparr>aa = ''*'', mod_type = Variable, position = ''Prot-N-term'',
     resolution_key = ByName ''Acetyl'', neutral_loss = NoHint\<rparr>"

definition scenario_result :: reconciled where
  "scenario_result =
     \<lparr>fixed =
        [\<lparr>mm_aa = ''C'', mm_position = ''any'', mm_name = ''Carbamidomethyl'',
          mm_mass = 57021464 / 1000000,
          mm_composition = [(''H'', 3), (''C'', 2), (''N'', 1), (''O'', 1)],
          mm_id = VStr ''4'', mm_neutral_loss = NoValue, seq_id = 1,
          org = request_carbamidomethyl, unimod = True\<rparr>],
      variable =
        [\<lparr>mm_aa = ''M'', mm_position = ''any'', mm_name = ''Oxidation'',
          mm_mass = 15994915 / 1000000, mm_composition = [(''O'', 1)],
          mm_id = VStr ''35'', mm_neutral_loss = NoValue, seq_id = 0,
          org = request_oxidation, unimod = True\<rparr>,
         \<lparr>mm_aa = ''*'', mm_position = ''Prot-N-term'', mm_name = ''Acetyl'',
          mm_mass = 42010565 / 1000000,
          mm_composition = [(''H'', 2), (''C'', 2), (''O'', 1)],
          mm_id = VStr ''1'', mm_neutral_loss = NoValue, seq_id = 2,
          org = request_acetyl, unimod = True\<rparr>]\<rparr>"

text \<open>
  One instance of each parameter of \<open>map_mods\<close>: a position correspondence that
  accepts any record for \<^verbatim>\<open>any\<close> and asks for the site \<^verbatim>\<open>N-term\<close> for
  \<^verbatim>\<open>Prot-N-term\<close>, and a dataset without neutral-loss data.
\<close>

definition position_by_site :: "string \<Rightarrow> ModificationRecord \<Rightarrow> bool" where
  "position_by_site qualifier r =
     (qualifier = ''any'' \<or> (qualifier = ''Prot-N-term'' \<and> ''N-term'' \<in> fst ` set (specificity r)))"

definition no_dataset_loss :: "ModificationRecord \<Rightarrow> string \<Rightarrow> neutral_loss_value" where
  "no_dataset_loss r site = EmptyList"

definition request_yadailation_M :: ModificationRequest where
  "request_yadailation_M = \<lparr>aa = ''M'', mod_type = Variable, position = ''any'',
     resolution_key = ByName ''Yadailation'', neutral_loss = NoHint\<rparr>"

definition request_yadailation_C :: ModificationRequest where
  "request_yadailation_C = \<lparr>aa = ''C'', mod_type = Fixed, position = ''any'',
     resolution_key = ByName ''Yadailation'', neutral_loss = NoHint\<rparr>"

text \<open>
  Notions for the overlay writer: a composition without its zero counts, the file
  \<^verbatim>\<open>writeXML\<close> writes to, and a call of \<^verbatim>\<open>writeXML\<close> followed by a lookup on the same
  instance.
\<close>

definition without_zero_counts :: "composition \<Rightarrow> composition" where
  "without_zero_counts c = filter (\<lambda>(symbol, number). number \<noteq> 0) c"

definition overlay_path :: "path \<Rightarrow> path option \<Rightarrow> path" where
  "overlay_path package_dir xml_file_arg =
     (case xml_file_arg of None \<Rightarrow> joinpath package_dir ''usermod.xml'' | Some p \<Rightarrow> p)"

definition write_then ::
  "path \<Rightarrow> files \<Rightarrow> UnimodMapper \<Rightarrow> modification_dict \<Rightarrow> path option
     \<Rightarrow> (engine \<Rightarrow> pyval \<Rightarrow> 'a) \<Rightarrow> pyval \<Rightarrow> py_error + 'a" where
  "write_then package_dir fs self modification_dict xml_file_arg lookup k =
     bind (writeXML package_dir fs self modification_dict xml_file_arg) (\<lambda>(fs', self').
     bind (properties fs' self') (\<lambda>(e, self''). Inr (lookup e k)))"

text \<open>
  A package directory whose \<^verbatim>\<open>unimod.xml\<close> holds one modification and that has no
  \<^verbatim>\<open>usermod.xml\<close> yet; an entry to write, and the record store after writing it to a
  fresh instance (\<^verbatim>\<open>usermod.xml\<close> is listed first and is parsed once more as the file
  written); an entry with a zero count; an entry that reuses the name, written second.
\<close>

definition xml_oxidation :: xml_mod where
  "xml_oxidation = \<lparr>record_id = Some ''35'', title = ''Oxidation'',
     delta_mono_mass = 15994915 / 1000000, delta_elements = [(''O'', 1)],
     specificities = [(''M'', ''Chemical derivative''), (''W'', ''Artefact'')]\<rparr>"

definition files0 :: files where
  "files0 = [''/pkg/unimod.xml'' \<mapsto> [xml_oxidation]]"

definition overlay_entry :: modification_dict where
  "overlay_entry = \<lparr>md_mass = 3 / 2, md_name = ''MyMod'',
     md_composition = [(''C'', 2), (''O'', 1)], md_id = None\<rparr>"

definition after_write :: "ModificationRecord list" where
  "after_write =
     [\<lparr>unimodID = ''u1'', unimodname = ''MyMod'', element = [(''C'', 2), (''O'', 1)],
       specificity = [], mono_mass = 3 / 2\<rparr>,
      \<lparr>unimodID = ''35'', unimodname = ''Oxidation'', element = [(''O'', 1)],
       specificity = [(''M'', ''Chemical derivative'')], mono_mass = 15994915 / 1000000\<rparr>,
      \<lparr>unimodID = ''u1'', unimodname = ''MyMod'', element = [(''C'', 2), (''O'', 1)],
       specificity = [], mono_mass = 3 / 2\<rparr>]"

definition zero_count_entry :: modification_dict where
  "zero_count_entry = \<lparr>md_mass = 3 / 2, md_name = ''MyMod'',
     md_composition = [(''C'', 2), (''H'', 0)], md_id = None\<rparr>"

definition same_name_entry :: modification_dict where
  "same_name_entry = \<lparr>md_mass = 2, md_name = ''MyMod'',
     md_composition = [(''N'', 1)], md_id = None\<rparr>"

definition second_write_first_mass :: "py_error + (py_error + mass option)" where
  "second_write_first_mass =
     bind (writeXML ''/pkg'' files0 (init ''/pkg'' []) overlay_entry None) (\<lambda>(fs1, self1).
       write_then ''/pkg'' fs1 self1 same_name_entry None name2first_mass (VStr ''MyMod''))"

section \<open>Properties of the index\<close>

lemma register_apply:
  "register m k i k' =
     (if k' = k then Some ((case m k of None \<Rightarrow> [] | Some l \<Rightarrow> l) @ [i]) else m k')"
  by (simp add: register_def)

lemma index_record_apply:
  "index_record m i r k =
     (if count_list (record_keys r) k = 0 then m k
      else Some ((case m k of None \<Rightarrow> [] | Some l \<Rightarrow> l) @ replicate (count_list (record_keys r) k) i))"
  by (simp add: index_record_def Let_def register_apply record_keys_def)

text \<open>The loop invariant of \<open>initialize_loop\<close>, key by key.\<close>

lemma initialize_loop_apply:
  "initialize_loop m i rs k =
     (if hits k i rs = [] then m k
      else Some ((case m k of None \<Rightarrow> [] | Some l \<Rightarrow> l) @ hits k i rs))"
proof (induction rs arbitrary: m i)
  case Nil
  then show ?case by simp
next
  case (Cons r rs)
  show ?case
    by (simp add: Cons.IH index_record_apply)
qed

lemma initialize_mapper_apply:
  "initialize_mapper dl k = (if hits k 0 dl = [] then None else Some (hits k 0 dl))"
  by (simp add: initialize_mapper_def initialize_loop_apply)

lemma set_hits:
  "set (hits k i rs) = {j. i \<le> j \<and> j < i + length rs \<and> k \<in> set (record_keys (rs ! (j - i)))}"
proof (induction rs arbitrary: i)
  case Nil
  then show ?case by simp
next
  case (Cons r rs)
  have "\<And>j. Suc i \<le> j \<Longrightarrow> (r # rs) ! (j - i) = rs ! (j - Suc i)"
    by (simp add: Suc_diff_le)
  then show ?case
    by (auto simp: Cons.IH count_list_0_iff nth_Cons' le_Suc_eq split: if_splits)
qed

lemma set_hits_0: "set (hits k 0 dl) = positions dl k"
  by (simp add: set_hits positions_def)

lemma sorted_hits: "sorted (hits k i rs)"
proof (induction rs arbitrary: i)
  case Nil
  then show ?case by simp
next
  case (Cons r rs)
  then show ?case
    by (auto simp: sorted_append set_hits)
qed

lemma fold_min_sorted: "sorted (x # xs) \<Longrightarrow> fold min xs x = x"
  by (induction xs) (auto simp: min_def)

lemma fold_min_Min: "fold min xs x = Min (set (x # xs))"
  using Min.set_eq_fold [of x xs] by simp

lemma py_min_Min: "xs \<noteq> [] \<Longrightarrow> py_min xs = Inr (Min (set xs))"
  by (cases xs) (simp_all add: fold_min_Min)

lemma index_absent: "positions dl k = {} \<Longrightarrow> initialize_mapper dl k = None"
  using set_hits_0 [of k dl] by (simp add: initialize_mapper_apply)

lemma index_present:
  "positions dl k \<noteq> {} \<Longrightarrow> initialize_mapper dl k = Some (hits k 0 dl) \<and> hits k 0 dl \<noteq> []"
  using set_hits_0 [of k dl] by (auto simp: initialize_mapper_apply)

section \<open>Properties of the lookup facade\<close>

lemma built_simps [simp]:
  "data_list (built dl) = dl" "mapper (built dl) = initialize_mapper dl"
  by (simp_all add: built_def)

lemma append_values_ok:
  "(\<And>i. i \<in> set il \<Longrightarrow> i < length (data_list e)) \<Longrightarrow>
   append_values e sel il acc = Inr (acc @ map (\<lambda>i. sel (data_list e ! i)) il)"
  by (induction il arbitrary: acc) (simp_all add: bind_def data_list_2_value_def)

lemma append_values_built:
  "append_values (built dl) sel (hits k 0 dl) [] = Inr (map (\<lambda>i. sel (dl ! i)) (hits k 0 dl))"
  by (subst append_values_ok) (simp_all add: set_hits)

lemma first_value_built:
  assumes "positions dl k \<noteq> {}"
  shows "bind (py_min (hits k 0 dl)) (\<lambda>index.
           bind (data_list_2_value (built dl) index sel) (\<lambda>rval. Inr (Some rval)))
         = Inr (lowest_match dl k sel)"
proof -
  have ne: "hits k 0 dl \<noteq> []" using index_present [OF assms] by simp
  have "Min (positions dl k) \<in> positions dl k"
    using assms by (metis List.finite_set Min_in set_hits_0)
  then have "Min (positions dl k) < length dl" by (simp add: positions_def)
  then show ?thesis
    using assms
    by (simp add: py_min_Min [OF ne] set_hits_0 bind_def data_list_2_value_def lowest_match_def)
qed

lemma list_lookup_built:
  "(case initialize_mapper dl k of None \<Rightarrow> Inr []
    | Some index_list \<Rightarrow> append_values (built dl) sel index_list [])
   = Inr (map (\<lambda>i. sel (dl ! i)) (hits k 0 dl))"
proof (cases "positions dl k = {}")
  case True
  then show ?thesis using set_hits_0 [of k dl] by (simp add: index_absent)
next
  case False
  then show ?thesis by (simp add: index_present append_values_built)
qed

lemma first_lookup_built:
  "(case initialize_mapper dl k of None \<Rightarrow> Inr None
    | Some index_list \<Rightarrow> bind (py_min index_list) (\<lambda>index.
          bind (data_list_2_value (built dl) index sel) (\<lambda>rval. Inr (Some rval))))
   = Inr (lowest_match dl k sel)"
proof (cases "positions dl k = {}")
  case True
  then show ?thesis by (simp add: index_absent lowest_match_def)
next
  case False
  then show ?thesis by (simp add: index_present first_value_built)
qed

text \<open>
  Every list variant that asks the index with \<^verbatim>\<open>get\<close> returns the attribute of each
  position the index lists, and so the empty list for a key no record carries.
\<close>

lemma get_list_lookups_built:
  "name2mass_list (built dl) k = Inr (map (\<lambda>i. mono_mass (dl ! i)) (hits (hash_key k) 0 dl))"
  "name2composition_list (built dl) k = Inr (map (\<lambda>i. element (dl ! i)) (hits (hash_key k) 0 dl))"
  "name2id_list (built dl) k = Inr (map (\<lambda>i. unimodID (dl ! i)) (hits (hash_key k) 0 dl))"
  "name2specificity_list (built dl) k = Inr (map (\<lambda>i. specificity (dl ! i)) (hits (hash_key k) 0 dl))"
  "id2mass_list (built dl) k = Inr (map (\<lambda>i. mono_mass (dl ! i)) (hits (hash_key (id_as_str k)) 0 dl))"
  "id2composition_list (built dl) k = Inr (map (\<lambda>i. element (dl ! i)) (hits (hash_key (id_as_str k)) 0 dl))"
  "id2name_list (built dl) k = Inr (map (\<lambda>i. unimodname (dl ! i)) (hits (hash_key (id_as_str k)) 0 dl))"
  "mass2id_list (built dl) k = Inr (map (\<lambda>i. unimodID (dl ! i)) (hits (hash_key k) 0 dl))"
  "composition2name_list (built dl) k = Inr (map (\<lambda>i. unimodname (dl ! i)) (hits (hash_key k) 0 dl))"
  "composition2id_list (built dl) k = Inr (map (\<lambda>i. unimodID (dl ! i)) (hits (hash_key k) 0 dl))"
  by (simp_all add: name2mass_list_def name2composition_list_def name2id_list_def
      name2specificity_list_def id2mass_list_def id2composition_list_def id2name_list_def
      mass2id_list_def composition2name_list_def composition2id_list_def list_lookup_built)

lemma subscript_list_lookups_absent:
  assumes "positions dl (hash_key k) = {}"
  shows "mass2name_list (built dl) k = Inl KeyError"
    and "mass2composition_list (built dl) k = Inl KeyError"
  using assms by (simp_all add: mass2name_list_def mass2composition_list_def index_absent)

text \<open>
  C3: for a key absent from the index every list-variant lookup, \<^verbatim>\<open>mass2name_list\<close> and
  \<^verbatim>\<open>mass2composition_list\<close> included, is to return the empty list without an error. On
  the three-record store no record has the mass 123.456: \<^verbatim>\<open>mass2id_list\<close> returns the
  empty list, while \<^verbatim>\<open>mass2name_list\<close> and \<^verbatim>\<open>mass2composition_list\<close>, which subscript
  the dict, raise KeyError.
\<close>

theorem mass_list_lookup_raises:
  "mass2name_list (built unimod3) (VFloat (123456 / 1000)) = Inl KeyError
   \<and> mass2composition_list (built unimod3) (VFloat (123456 / 1000)) = Inl KeyError
   \<and> mass2id_list (built unimod3) (VFloat (123456 / 1000)) = Inr []"
  by code_simp

text \<open>
  C4: on an index built from the record store, each first-variant lookup returns the
  requested attribute of the record at the lowest position among the records that carry
  the key, and \<open>None\<close> when no record carries it; the id-keyed ones ask with the
  string form of the id.
\<close>

theorem first_lookup_lowest_position:
  "name2first_mass (built dl) k = Inr (lowest_match dl (hash_key k) mono_mass)
   \<and> name2first_composition (built dl) k = Inr (lowest_match dl (hash_key k) element)
   \<and> name2first_id (built dl) k = Inr (lowest_match dl (hash_key k) unimodID)
   \<and> id2first_mass (built dl) k = Inr (lowest_match dl (hash_key (id_as_str k)) mono_mass)
   \<and> id2first_composition (built dl) k = Inr (lowest_match dl (hash_key (id_as_str k)) element)
   \<and> id2first_name (built dl) k = Inr (lowest_match dl (hash_key (id_as_str k)) unimodname)"
  by (simp add: name2first_mass_def name2first_composition_def name2first_id_def
      id2first_mass_def id2first_composition_def id2first_name_def first_lookup_built)

text \<open>
  C6: \<^verbatim>\<open>composition2mass\<close> returns \<open>None\<close> for a key no record carries; for a key
  some record carries it fails with the assertion exactly when the matched records have
  more than one distinct \<^verbatim>\<open>mono_mass\<close>, and returns the one mass they share otherwise.
\<close>

theorem composition2mass_assertion:
  "composition2mass (built dl) k =
     (if positions dl (hash_key k) = {} then Inr None
      else if 1 < card (matched_masses dl (hash_key k)) then Inl AssertionError
      else Inr (Some (the_elem (matched_masses dl (hash_key k)))))"
proof (cases "positions dl (hash_key k) = {}")
  case True
  then show ?thesis by (simp add: composition2mass_def index_absent)
next
  case False
  define l where "l = map (\<lambda>i. mono_mass (dl ! i)) (hits (hash_key k) 0 dl)"
  have ne: "l \<noteq> []" using index_present [OF False] by (simp add: l_def)
  have sl: "set l = matched_masses dl (hash_key k)"
    by (simp add: l_def matched_masses_def set_hits_0)
  have cl: "length (remdups l) = card (matched_masses dl (hash_key k))"
    using sl by (simp add: length_remdups_card_conv)
  have pos: "0 < card (matched_masses dl (hash_key k))"
    using ne sl by (metis List.finite_set card_gt_0_iff set_empty)
  have run: "composition2mass (built dl) k =
      (if length (remdups l) = 1 then (case l of [] \<Rightarrow> Inl IndexError | m # _ \<Rightarrow> Inr (Some m))
       else Inl AssertionError)"
    using index_present [OF False]
    by (simp add: composition2mass_def append_values_built bind_def l_def)
  show ?thesis
  proof (cases "card (matched_masses dl (hash_key k)) = 1")
    case True
    then obtain m where m: "matched_masses dl (hash_key k) = {m}"
      by (auto simp: card_1_singleton_iff)
    obtain x xs where l: "l = x # xs" using ne by (cases l) auto
    have "x = m" using sl m l by auto
    then show ?thesis using False True run cl l m by simp
  next
    case F: False
    then have "1 < card (matched_masses dl (hash_key k))" using pos by linarith
    then show ?thesis using False F run cl by simp
  qed
qed

text \<open>The three outcomes of \<^verbatim>\<open>composition2mass\<close> on concrete stores.\<close>

lemma composition2mass_outcomes:
  "composition2mass (built two_masses) (VStr ''O(1)'') = Inl AssertionError
   \<and> composition2mass (built unimod3) (VStr ''O(1)'') = Inr (Some (15994915 / 1000000))
   \<and> composition2mass (built unimod3) (VStr ''O(2)'') = Inr None"
  by code_simp





text \<open>
  C10, as amended: a key of the built index maps to a list that is not empty, is in
  ascending order (a position may repeat), holds only valid positions of the record
  store, and has its minimum as first element.
\<close>

theorem index_lists_sorted:
  "initialize_mapper dl k = Some il \<Longrightarrow>
     il \<noteq> [] \<and> sorted il \<and> set il \<subseteq> {0..<length dl} \<and> py_min il = Inr (hd il)"
proof -
  assume a: "initialize_mapper dl k = Some il"
  then have il: "il = hits k 0 dl" and ne: "il \<noteq> []"
    by (auto simp: initialize_mapper_apply split: if_splits)
  have s: "sorted il" by (simp add: il sorted_hits)
  have b: "set il \<subseteq> {0..<length dl}" by (auto simp: il set_hits)
  obtain x xs where c: "il = x # xs" using ne by (cases il) auto
  have "py_min il = Inr (hd il)" using s by (simp add: c fold_min_sorted del: sorted_simps)
  with ne s b show ?thesis by simp
qed

theorem index_lists_sorted_witness:
  "initialize_mapper unimod3 (KStr ''Oxidation'') = Some [2]
   \<and> sorted [2::nat] \<and> set [2::nat] \<subseteq> {0..<length unimod3} \<and> py_min [2] = Inr 2"
proof -
  have h: "initialize_mapper unimod3 (KStr ''Oxidation'') = Some [2]" by code_simp
  show ?thesis using h index_lists_sorted [OF h] by simp
qed

text \<open>
  C10 as stated fails: a record whose id and name are the same string is registered
  twice under that key, so the key's list repeats the position and is not strictly
  increasing.
\<close>

theorem index_list_not_strict_counterexample:
  "initialize_mapper [same_id_and_name] (KStr ''u1'') = Some [0, 0]
   \<and> \<not> sorted_wrt (<) (the (initialize_mapper [same_id_and_name] (KStr ''u1'')))"
proof -
  have h: "initialize_mapper [same_id_and_name] (KStr ''u1'') = Some [0, 0]" by code_simp
  show ?thesis by (simp add: h)
qed

section \<open>The canonical composition string and the keys of the index\<close>

lemma majors_loop_eq:
  "majors_loop d ms hill =
     hill @ concat (map (\<lambda>major. case map_of d major of None \<Rightarrow> [] | Some n \<Rightarrow> fmt major n) ms)"
  by (induction ms arbitrary: hill) (simp_all split: option.split)

lemma items_loop_eq:
  "items_loop xs hill =
     hill @ concat (map (\<lambda>(s, n). fmt s n) (filter (\<lambda>(s, n). s \<noteq> ''C'' \<and> s \<noteq> ''H'') xs))"
  by (induction xs hill rule: items_loop.induct) (simp_all add: MAJORS_def)

lemma hill_notation_eq:
  "hill_notation d =
     (case map_of d ''C'' of None \<Rightarrow> [] | Some n \<Rightarrow> fmt ''C'' n)
     @ (case map_of d ''H'' of None \<Rightarrow> [] | Some n \<Rightarrow> fmt ''H'' n)
     @ concat (map (\<lambda>(s, n). fmt s n) (filter (\<lambda>(s, n). s \<noteq> ''C'' \<and> s \<noteq> ''H'') (sort d)))"
  by (simp add: hill_notation_def majors_loop_eq items_loop_eq MAJORS_def)

lemma sorted_map_fst: "sorted (xs :: ('a::linorder \<times> 'b::linorder) list) \<Longrightarrow> sorted (map fst xs)"
  by (induction xs) (auto simp: less_eq_prod_def)

lemma rest_symbols_sorted:
  "sorted (map fst (filter P (sort (d :: composition))))"
  by (rule sorted_filter) (simp add: sorted_map_fst)

lemma collect_elements_nonzero:
  "0 \<notin> snd ` set d \<Longrightarrow> 0 \<notin> snd ` set (collect_elements es d)"
proof (induction es d rule: collect_elements.induct)
  case (1 d)
  then show ?case by simp
next
  case (2 symbol number rest d)
  have "snd ` set (AList.update symbol number d) \<subseteq> insert number (snd ` set d)"
    by (induction d) auto
  with 2 show ?case by (auto split: if_splits)
qed

lemma collect_elements_distinct:
  "distinct (map fst d) \<Longrightarrow> distinct (map fst (collect_elements es d))"
  by (induction es d rule: collect_elements.induct) (simp_all add: distinct_update)

lemma collect_elements_map_of:
  "map_of (collect_elements es d) = map_of d ++ map_of (rev (filter (\<lambda>(s, n). n \<noteq> 0) es))"
proof (induction es d rule: collect_elements.induct)
  case (1 d)
  then show ?case by simp
next
  case (2 symbol number rest d)
  let ?R = "map_of (rev (filter (\<lambda>(s, n). n \<noteq> 0) rest))"
  show ?case
  proof (cases "number = 0")
    case True
    then show ?thesis using 2 by simp
  next
    case False
    have step: "collect_elements ((symbol, number) # rest) d =
        collect_elements rest (AList.update symbol number d)"
      using False by simp
    have "map_of (collect_elements rest (AList.update symbol number d)) =
        map_of (AList.update symbol number d) ++ ?R"
      using 2(1) False by blast
    also have "map_of (AList.update symbol number d) = (map_of d)(symbol \<mapsto> number)"
      by (rule update_conv')
    also have "(map_of d)(symbol \<mapsto> number) ++ ?R = map_of d ++ ([symbol \<mapsto> number] ++ ?R)"
      by (rule ext) (simp add: map_add_def split: option.splits)
    also have "[symbol \<mapsto> number] ++ ?R =
        map_of (rev (filter (\<lambda>(s, n). n \<noteq> 0) ((symbol, number) # rest)))"
      using False by simp
    finally show ?thesis by (simp only: step)
  qed
qed

lemma dom_initialize_mapper: "dom (initialize_mapper dl) = (\<Union>r\<in>set dl. set (record_keys r))"
proof -
  have "k \<in> dom (initialize_mapper dl) \<longleftrightarrow> positions dl k \<noteq> {}" for k
    using set_hits_0 [of k dl] by (auto simp: initialize_mapper_apply dom_def)
  moreover have "positions dl k \<noteq> {} \<longleftrightarrow> k \<in> (\<Union>r\<in>set dl. set (record_keys r))" for k
  proof -
    have "(\<exists>i<length dl. k \<in> set (record_keys (dl ! i))) \<longleftrightarrow> (\<exists>r\<in>set dl. k \<in> set (record_keys r))"
      by (metis in_set_conv_nth)
    then show ?thesis by (auto simp: positions_def)
  qed
  ultimately show ?thesis by blast
qed

lemma hits_map_cong:
  "(\<And>r. record_keys (f r) = record_keys r) \<Longrightarrow> hits k i (map f rs) = hits k i rs"
  by (induction rs arbitrary: i) simp_all

lemma index_ignores_specificity:
  "initialize_mapper (map (\<lambda>r. r\<lparr>specificity := sp r\<rparr>) dl) = initialize_mapper dl"
proof
  fix k
  have "hits k 0 (map (\<lambda>r. r\<lparr>specificity := sp r\<rparr>) dl) = hits k 0 dl"
    by (rule hits_map_cong) (simp add: record_keys_def)
  then show "initialize_mapper (map (\<lambda>r. r\<lparr>specificity := sp r\<rparr>) dl) k = initialize_mapper dl k"
    by (simp add: initialize_mapper_apply)
qed

text \<open>
  C5: the canonical composition string renders the count of C first, then the count
  of H, then every other element in the order of the sorted symbols, each as
  \<^verbatim>\<open>Symbol(count)\<close>. The composition the parser stores for an entry holds the last
  nonzero count of each symbol and no zero count, so a zero-count element is never
  rendered. The keys of the index are, for each record, its id, its name, this string
  and its mass, and nothing else: the composition contributes only the string, and the
  index is the same whatever the specificity lists are.
\<close>

theorem canonical_composition_key:
  "hill_notation d =
     (case map_of d ''C'' of None \<Rightarrow> [] | Some n \<Rightarrow> fmt ''C'' n)
     @ (case map_of d ''H'' of None \<Rightarrow> [] | Some n \<Rightarrow> fmt ''H'' n)
     @ concat (map (\<lambda>(s, n). fmt s n) (filter (\<lambda>(s, n). s \<noteq> ''C'' \<and> s \<noteq> ''H'') (sort d)))
   \<and> sorted (map fst (filter (\<lambda>(s, n). s \<noteq> ''C'' \<and> s \<noteq> ''H'') (sort d)))
   \<and> fmt s n = s @ ''('' @ str_int n @ '')''
   \<and> map_of (element (parse_mod m)) = map_of (rev (filter (\<lambda>(s, n). n \<noteq> 0) (delta_elements m)))
   \<and> 0 \<notin> snd ` set (element (parse_mod m))
   \<and> distinct (map fst (element (parse_mod m)))
   \<and> dom (initialize_mapper dl) =
       (\<Union>r\<in>set dl. {KStr (unimodID r), KStr (unimodname r),
                       KStr (hill_notation (element r)), KNum (mono_mass r)})
   \<and> initialize_mapper (map (\<lambda>r. r\<lparr>specificity := sp r\<rparr>) dl) = initialize_mapper dl"
proof -
  have a: "map_of (element (parse_mod m)) = map_of (rev (filter (\<lambda>(s, n). n \<noteq> 0) (delta_elements m)))"
    by (simp add: parse_mod_def collect_elements_map_of)
  have b: "0 \<notin> snd ` set (element (parse_mod m))"
    using collect_elements_nonzero [of "[]" "delta_elements m"] by (simp add: parse_mod_def)
  have c: "distinct (map fst (element (parse_mod m)))"
    using collect_elements_distinct [of "[]" "delta_elements m"] by (simp add: parse_mod_def)
  have d: "dom (initialize_mapper dl) =
       (\<Union>r\<in>set dl. {KStr (unimodID r), KStr (unimodname r),
                       KStr (hill_notation (element r)), KNum (mono_mass r)})"
    by (simp add: dom_initialize_mapper record_keys_def)
  show ?thesis
    using hill_notation_eq [of d] rest_symbols_sorted [of _ d] a b c d
      index_ignores_specificity [of sp dl]
    by (simp add: fmt_def)
qed

section \<open>Properties of the request reconciler\<close>

lemma select_loop_ok:
  "(\<And>i. i \<in> set il \<Longrightarrow> i < length (data_list self)) \<Longrightarrow>
   select_loop ok self req il = Inr (find (site_matches ok req) (map (\<lambda>i. data_list self ! i) il))"
  by (induction il) (simp_all add: bind_def data_list_2_value_def)

lemma lowest_value_built:
  assumes "positions dl k \<noteq> {}"
  shows "bind (py_min (hits k 0 dl)) (\<lambda>index. bind (data_list_2_value (built dl) index sel) f)
         = f (sel (dl ! Min (positions dl k)))"
proof -
  have ne: "hits k 0 dl \<noteq> []" using index_present [OF assms] by simp
  have "Min (positions dl k) \<in> positions dl k"
    using assms by (metis List.finite_set Min_in set_hits_0)
  then have "Min (positions dl k) < length dl" by (simp add: positions_def)
  then show ?thesis
    by (simp add: py_min_Min [OF ne] set_hits_0 bind_def data_list_2_value_def)
qed

text \<open>On a built index a request resolves without an error.\<close>

lemma resolve_built:
  "resolve ok (built dl) req =
     Inr (case resolution_key req of
            ByName n \<Rightarrow> map_option (\<lambda>r. (r, VStr (unimodID r)))
                          (find (site_matches ok req) (map (\<lambda>i. dl ! i) (hits (KStr n) 0 dl)))
          | ById v \<Rightarrow> map_option (\<lambda>r. (r, v)) (lowest_match dl (hash_key (id_as_str v)) (\<lambda>r. r)))"
proof (cases "resolution_key req")
  case (ByName n)
  show ?thesis
  proof (cases "positions dl (KStr n) = {}")
    case True
    then show ?thesis using ByName set_hits_0 [of "KStr n" dl]
      by (simp add: resolve_def index_absent)
  next
    case False
    have "select_loop ok (built dl) req (hits (KStr n) 0 dl) =
        Inr (find (site_matches ok req) (map (\<lambda>i. dl ! i) (hits (KStr n) 0 dl)))"
      by (subst select_loop_ok) (simp_all add: set_hits)
    then show ?thesis using ByName False
      by (simp add: resolve_def index_present bind_def)
  qed
next
  case (ById v)
  show ?thesis
  proof (cases "positions dl (hash_key (id_as_str v)) = {}")
    case True
    then show ?thesis using ById by (simp add: resolve_def index_absent lowest_match_def)
  next
    case False
    then show ?thesis using ById
      by (simp add: resolve_def index_present lowest_value_built lowest_match_def)
  qed
qed

lemma map_mods_loop_eq:
  "(\<And>req. req \<in> set mod_list \<Longrightarrow> \<exists>x. resolve ok self req = Inr x) \<Longrightarrow>
   map_mods_loop ok nl self start mod_list rdict =
     Inr \<lparr>fixed = fixed rdict @ expected_list ok nl self Fixed start mod_list,
          variable = variable rdict @ expected_list ok nl self Variable start mod_list\<rparr>"
proof (induction mod_list arbitrary: start rdict)
  case Nil
  then show ?case by (simp add: expected_list_def)
next
  case (Cons req rest)
  obtain x where x: "resolve ok self req = Inr x" using Cons.prems by auto
  have IH: "\<And>start rdict. map_mods_loop ok nl self start rest rdict =
     Inr \<lparr>fixed = fixed rdict @ expected_list ok nl self Fixed start rest,
          variable = variable rdict @ expected_list ok nl self Variable start rest\<rparr>"
    using Cons by simp
  show ?case
  proof (cases x)
    case None
    then show ?thesis using x by (simp add: IH bind_def expected_list_def)
  next
    case (Some p)
    obtain r idv where p: "p = (r, idv)" by (cases p)
    show ?thesis using x Some p
      by (cases "mod_type req") (simp_all add: IH bind_def expected_list_def append_by_type_def)
  qed
qed

lemma map_mods_built:
  "map_mods ok nl (built dl) mod_list =
     Inr \<lparr>fixed = expected_list ok nl (built dl) Fixed 0 mod_list,
          variable = expected_list ok nl (built dl) Variable 0 mod_list\<rparr>"
  by (simp add: map_mods_def map_mods_loop_eq resolve_built)


lemma hits_scenario:
  "hits (KStr ''Oxidation'') 0 unimod3 = [2]"
  "hits (KStr ''Carbamidomethyl'') 0 unimod3 = [1]"
  "hits (KStr ''Acetyl'') 0 unimod3 = [0]"
  "hits (KStr ''Yadailation'') 0 unimod3 = []"
  by code_simp+

lemma resolve_scenario:
  assumes "ok ''any'' oxidation" "ok ''any'' carbamidomethyl" "ok ''Prot-N-term'' acetyl"
  shows "resolve ok (built unimod3) request_oxidation = Inr (Some (oxidation, VStr ''35''))"
    and "resolve ok (built unimod3) request_carbamidomethyl = Inr (Some (carbamidomethyl, VStr ''4''))"
    and "resolve ok (built unimod3) request_acetyl = Inr (Some (acetyl, VStr ''1''))"
proof -
  have nth: "unimod3 ! 2 = oxidation" "unimod3 ! Suc 0 = carbamidomethyl" "unimod3 ! 0 = acetyl"
    by (simp_all add: unimod3_def)
  have key: "resolution_key request_oxidation = ByName ''Oxidation''"
    "resolution_key request_carbamidomethyl = ByName ''Carbamidomethyl''"
    "resolution_key request_acetyl = ByName ''Acetyl''"
    by (simp_all add: request_oxidation_def request_carbamidomethyl_def request_acetyl_def)
  have ids: "unimodID oxidation = ''35''" "unimodID carbamidomethyl = ''4''" "unimodID acetyl = ''1''"
    by (simp_all add: oxidation_def carbamidomethyl_def acetyl_def)
  have m1: "site_matches ok request_oxidation oxidation"
    using assms(1) by (simp add: site_matches_def request_oxidation_def oxidation_def)
  have m2: "site_matches ok request_carbamidomethyl carbamidomethyl"
    using assms(2) by (simp add: site_matches_def request_carbamidomethyl_def carbamidomethyl_def)
  have m3: "site_matches ok request_acetyl acetyl"
    using assms(3) by (simp add: site_matches_def request_acetyl_def)
  show "resolve ok (built unimod3) request_oxidation = Inr (Some (oxidation, VStr ''35''))"
    by (simp add: resolve_built key hits_scenario nth m1 ids)
  show "resolve ok (built unimod3) request_carbamidomethyl = Inr (Some (carbamidomethyl, VStr ''4''))"
    by (simp add: resolve_built key hits_scenario nth m2 ids)
  show "resolve ok (built unimod3) request_acetyl = Inr (Some (acetyl, VStr ''1''))"
    by (simp add: resolve_built key hits_scenario nth m3 ids)
qed

lemma scenario_result_eq:
  "scenario_result =
     \<lparr>fixed = [mapped_modification nl (Suc 0) request_carbamidomethyl carbamidomethyl (VStr ''4'')],
      variable = [mapped_modification nl 0 request_oxidation oxidation (VStr ''35''),
                  mapped_modification nl (Suc (Suc 0)) request_acetyl acetyl (VStr ''1'')]\<rparr>"
  by (simp add: scenario_result_def mapped_modification_def resolve_neutral_loss_def
      request_oxidation_def request_carbamidomethyl_def request_acetyl_def
      oxidation_def carbamidomethyl_def acetyl_def)

lemma scenario_reconciled:
  assumes "ok ''any'' oxidation" "ok ''any'' carbamidomethyl" "ok ''Prot-N-term'' acetyl"
  shows "map_mods ok nl (built unimod3) [request_oxidation, request_carbamidomethyl, request_acetyl]
         = Inr scenario_result"
proof -
  have t: "mod_type request_oxidation = Variable" "mod_type request_carbamidomethyl = Fixed"
    "mod_type request_acetyl = Variable"
    by (simp_all add: request_oxidation_def request_carbamidomethyl_def request_acetyl_def)
  show ?thesis
    unfolding scenario_result_eq [of nl]
    by (simp add: map_mods_def bind_def resolve_scenario [OF assms] t append_by_type_def)
qed

text \<open>
  C1: on a built index \<open>map_mods\<close> returns the two lists that hold, in input order,
  the resolved requests of each classification; each entry carries the zero-based input
  position of its request as \<^verbatim>\<open>_id\<close>, the request itself as \<^verbatim>\<open>org\<close>, and
  \<^verbatim>\<open>unimod = True\<close>. For the three requests Oxidation, Carbamidomethyl and Acetyl
  against the three-record store the result is the one of the test, for every position
  correspondence that accepts the three request/record pairs.
\<close>

theorem map_mods_partition_and_annotation:
  "map_mods ok nl (built dl) mod_list =
     Inr \<lparr>fixed = expected_list ok nl (built dl) Fixed 0 mod_list,
          variable = expected_list ok nl (built dl) Variable 0 mod_list\<rparr>
   \<and> seq_id (mapped_modification nl i req r idv) = i
   \<and> org (mapped_modification nl i req r idv) = req
   \<and> unimod (mapped_modification nl i req r idv)
   \<and> (ok ''any'' oxidation \<and> ok ''any'' carbamidomethyl \<and> ok ''Prot-N-term'' acetyl \<longrightarrow>
        map_mods ok nl (built unimod3) [request_oxidation, request_carbamidomethyl, request_acetyl]
          = Inr scenario_result)"
  using map_mods_built [of ok nl dl mod_list] scenario_reconciled [of ok nl]
  by (simp add: mapped_modification_def)

theorem map_mods_scenario_witness:
  "map_mods position_by_site no_dataset_loss (built unimod3)
     [request_oxidation, request_carbamidomethyl, request_acetyl] = Inr scenario_result"
proof -
  have h: "position_by_site ''any'' oxidation \<and> position_by_site ''any'' carbamidomethyl
           \<and> position_by_site ''Prot-N-term'' acetyl"
    by (simp add: position_by_site_def acetyl_def)
  note t = map_mods_partition_and_annotation [where ok = position_by_site
      and nl = no_dataset_loss and dl = unimod3 and mod_list = "[]" and i = 0
      and req = request_oxidation and r = oxidation and idv = "VStr ''35''"]
  from t h show ?thesis by blast
qed

lemma expected_list_member:
  "m \<in> set (expected_list ok nl self t start mod_list) \<Longrightarrow>
     \<exists>j<length mod_list. seq_id m = start + j
        \<and> (\<exists>r idv. resolve ok self (mod_list ! j) = Inr (Some (r, idv)))"
proof (induction mod_list arbitrary: start)
  case Nil
  then show ?case by (simp add: expected_list_def)
next
  case (Cons req rest)
  have split: "expected_list ok nl self t start (req # rest) =
      (case resolve ok self req of
          Inr (Some (r, idv)) \<Rightarrow>
            if mod_type req = t then [mapped_modification nl start req r idv] else []
        | _ \<Rightarrow> []) @ expected_list ok nl self t (Suc start) rest"
    by (simp add: expected_list_def)
  from Cons.prems [unfolded split] consider
      (head) "m \<in> set (case resolve ok self req of
          Inr (Some (r, idv)) \<Rightarrow>
            if mod_type req = t then [mapped_modification nl start req r idv] else []
        | _ \<Rightarrow> [])"
    | (tail) "m \<in> set (expected_list ok nl self t (Suc start) rest)"
    by auto
  then show ?case
  proof cases
    case head
    then have "seq_id m = start \<and> (\<exists>r idv. resolve ok self req = Inr (Some (r, idv)))"
      by (auto simp: mapped_modification_def split: sum.splits option.splits if_splits) metis+
    then show ?thesis by (intro exI [of _ 0]) simp
  next
    case tail
    from Cons.IH [OF tail] obtain j where "j < length rest" "seq_id m = Suc start + j"
      "\<exists>r idv. resolve ok self (rest ! j) = Inr (Some (r, idv))" by blast
    then show ?thesis by (intro exI [of _ "Suc j"]) simp
  qed
qed

lemma expected_list_empty:
  assumes "\<And>req. req \<in> set mod_list \<Longrightarrow> resolve ok self req = Inr None"
  shows "expected_list ok nl self t start mod_list = []"
proof (rule ccontr)
  assume "expected_list ok nl self t start mod_list \<noteq> []"
  then obtain m where "m \<in> set (expected_list ok nl self t start mod_list)"
    by (cases "expected_list ok nl self t start mod_list") auto
  from expected_list_member [OF this] obtain j r idv where
    "j < length mod_list" "resolve ok self (mod_list ! j) = Inr (Some (r, idv))" by blast
  then show False using assms [of "mod_list ! j"] by simp
qed

text \<open>
  C2: when no request resolves, \<open>map_mods\<close> returns two empty lists and no error;
  in any request list an unresolved request leaves its position out of the \<^verbatim>\<open>_id\<close>s of
  both lists; a request whose name or id no record carries is unresolved.
\<close>

theorem unresolved_requests_dropped:
  "((\<forall>req\<in>set mod_list. resolve ok (built dl) req = Inr None) \<longrightarrow>
      map_mods ok nl (built dl) mod_list = Inr \<lparr>fixed = [], variable = []\<rparr>)
   \<and> (\<exists>out. map_mods ok nl (built dl) mod_list = Inr out
        \<and> (\<forall>i<length mod_list. resolve ok (built dl) (mod_list ! i) = Inr None \<longrightarrow>
              i \<notin> seq_id ` (set (fixed out) \<union> set (variable out))))
   \<and> (resolution_key req = ByName n \<and> positions dl (KStr n) = {} \<longrightarrow>
        resolve ok (built dl) req = Inr None)
   \<and> (resolution_key req = ById v \<and> positions dl (hash_key (id_as_str v)) = {} \<longrightarrow>
        resolve ok (built dl) req = Inr None)"
proof -
  have a: "(\<forall>req\<in>set mod_list. resolve ok (built dl) req = Inr None) \<longrightarrow>
      map_mods ok nl (built dl) mod_list = Inr \<lparr>fixed = [], variable = []\<rparr>"
    by (simp add: map_mods_built expected_list_empty)
  have b: "i \<notin> seq_id ` (set (expected_list ok nl (built dl) Fixed 0 mod_list)
                          \<union> set (expected_list ok nl (built dl) Variable 0 mod_list))"
    if "i < length mod_list" "resolve ok (built dl) (mod_list ! i) = Inr None" for i
  proof
    assume "i \<in> seq_id ` (set (expected_list ok nl (built dl) Fixed 0 mod_list)
                          \<union> set (expected_list ok nl (built dl) Variable 0 mod_list))"
    then obtain m t where "m \<in> set (expected_list ok nl (built dl) t 0 mod_list)" "seq_id m = i"
      by auto
    then show False using expected_list_member [of m ok nl "built dl" t 0 mod_list] that by auto
  qed
  have c: "resolution_key req = ByName n \<and> positions dl (KStr n) = {} \<longrightarrow>
        resolve ok (built dl) req = Inr None"
    by (simp add: resolve_def index_absent)
  have d: "resolution_key req = ById v \<and> positions dl (hash_key (id_as_str v)) = {} \<longrightarrow>
        resolve ok (built dl) req = Inr None"
    by (simp add: resolve_def index_absent)
  show ?thesis using a b c d by (simp add: map_mods_built)
qed

theorem unresolved_requests_dropped_witness:
  "map_mods position_by_site no_dataset_loss (built unimod3)
     [request_yadailation_M, request_yadailation_C] = Inr \<lparr>fixed = [], variable = []\<rparr>
   \<and> resolve position_by_site (built unimod3) request_yadailation_M = Inr None
   \<and> resolve position_by_site (built unimod3) request_yadailation_C = Inr None"
proof -
  have p: "positions unimod3 (KStr ''Yadailation'') = {}"
    using set_hits_0 [of "KStr ''Yadailation''" unimod3] by (simp add: hits_scenario)
  note t = unresolved_requests_dropped [where ok = position_by_site and nl = no_dataset_loss
      and dl = unimod3 and n = "''Yadailation''" and v = "VInt 0"
      and mod_list = "[request_yadailation_M, request_yadailation_C]"]
  have r1: "resolve position_by_site (built unimod3) request_yadailation_M = Inr None"
    using t [where req = request_yadailation_M] p by (simp add: request_yadailation_M_def)
  have r2: "resolve position_by_site (built unimod3) request_yadailation_C = Inr None"
    using t [where req = request_yadailation_C] p by (simp add: request_yadailation_C_def)
  have "\<forall>req\<in>set [request_yadailation_M, request_yadailation_C].
          resolve position_by_site (built unimod3) req = Inr None"
    using r1 r2 by simp
  with t [where req = request_yadailation_M] r1 r2 show ?thesis by blast
qed

section \<open>Properties of the overlay writer\<close>

lemma parseXML_loop_append:
  "parseXML_loop fs (ps @ qs) acc = bind (parseXML_loop fs ps acc) (\<lambda>dl. parseXML_loop fs qs dl)"
  by (induction ps arbitrary: acc) (simp_all add: bind_def split: option.splits)

lemma parseXML_loop_ok:
  "(\<And>p. p \<in> set ps \<Longrightarrow> p \<in> dom fs \<or> path_name p = ''usermod.xml'') \<Longrightarrow>
     \<exists>dl. parseXML_loop fs ps acc = Inr (acc @ dl)"
proof (induction ps arbitrary: acc)
  case Nil
  then show ?case by simp
next
  case (Cons p ps)
  show ?case
  proof (cases "fs p")
    case None
    then have "path_name p = ''usermod.xml''" using Cons.prems [of p] by auto
    then show ?thesis using None Cons.IH [of acc] Cons.prems by simp
  next
    case (Some mods)
    obtain dl where "parseXML_loop fs ps (acc @ map parse_mod mods) = Inr ((acc @ map parse_mod mods) @ dl)"
      using Cons.IH [of "acc @ map parse_mod mods"] Cons.prems by auto
    then show ?thesis using Some by simp
  qed
qed

lemma insert_loop_eq:
  "insert_loop ds (xs @ [md]) =
     xs @ map (\<lambda>data_dict. \<lparr>md_mass = mono_mass data_dict, md_name = unimodname data_dict,
           md_composition = element data_dict, md_id = Some (unimodID data_dict)\<rparr>) ds @ [md]"
proof (induction ds arbitrary: xs)
  case Nil
  then show ?case by simp
next
  case (Cons d ds)
  let ?c = "\<lparr>md_mass = mono_mass d, md_name = unimodname d,
           md_composition = element d, md_id = Some (unimodID d)\<rparr>"
  have "insert_before_last (xs @ [md]) ?c = (xs @ [?c]) @ [md]"
    by (simp add: insert_before_last_def)
  then show ?case using Cons.IH [of "xs @ [?c]"] by simp
qed

lemma map_of_rev_distinct: "distinct (map fst xs) \<Longrightarrow> map_of (rev xs) = map_of xs"
proof (induction xs)
  case Nil
  then show ?case by simp
next
  case (Cons x xs)
  obtain k v where x: "x = (k, v)" by (cases x)
  have none: "map_of xs k = None" using Cons.prems x by (simp add: map_of_eq_None_iff)
  have "map_of (rev (x # xs)) = [k \<mapsto> v] ++ map_of xs" using Cons x by simp
  also have "\<dots> = (map_of xs)(k \<mapsto> v)"
    using none by (intro ext) (simp add: map_add_def split: option.splits)
  finally show ?case using x by simp
qed

lemma parse_written:
  assumes "distinct (map fst (md_composition md))"
  shows "unimodname (parse_mod (write_mod n md)) = md_name md"
    and "mono_mass (parse_mod (write_mod n md)) = md_mass md"
    and "map_of (element (parse_mod (write_mod n md))) = map_of (without_zero_counts (md_composition md))"
proof -
  have "distinct (map fst (without_zero_counts (md_composition md)))"
    using assms by (simp add: without_zero_counts_def distinct_map_filter)
  then show "map_of (element (parse_mod (write_mod n md))) = map_of (without_zero_counts (md_composition md))"
    by (simp add: parse_mod_def write_mod_def collect_elements_map_of map_of_rev_distinct
        without_zero_counts_def)
qed (simp_all add: parse_mod_def write_mod_def)

text \<open>The entries \<^verbatim>\<open>writeXML\<close> writes: those read from the file, then the new one.\<close>

lemma mod_dicts_shape:
  "\<exists>older.
     (case fs xml_file of
        None \<Rightarrow> Inr [md]
      | Some _ \<Rightarrow> bind (parseXML fs [xml_file]) (\<lambda>old. Inr (insert_loop old [md])))
     = Inr (older @ [md])"
proof (cases "fs xml_file")
  case None
  then show ?thesis by simp
next
  case (Some mods)
  have "insert_loop (map parse_mod mods) ([] @ [md]) =
      map (\<lambda>data_dict. \<lparr>md_mass = mono_mass data_dict, md_name = unimodname data_dict,
           md_composition = element data_dict, md_id = Some (unimodID data_dict)\<rparr>)
        (map parse_mod mods) @ [md]"
    by (subst insert_loop_eq) simp
  then show ?thesis using Some by (simp add: parseXML_def bind_def)
qed

lemma writeXML_result:
  assumes paths: "\<And>p. p \<in> set (unimod_xml_names self) \<Longrightarrow>
            joinpath pkg p \<in> dom fs \<or> joinpath pkg p = xml_file
            \<or> path_name (joinpath pkg p) = ''usermod.xml''"
    and target: "xml_file = (case arg of None \<Rightarrow> joinpath pkg ''usermod.xml'' | Some p \<Rightarrow> p)"
  shows "\<exists>fs' before older n.
      writeXML pkg fs self md arg =
        Inr (fs', self\<lparr>u_data_list := Some (before @ [parse_mod (write_mod n md)]),
                         u_mapper := Some (initialize_mapper (before @ [parse_mod (write_mod n md)]))\<rparr>)
    \<and> parseXML fs' (map (joinpath pkg) (unimod_xml_names self) @ [xml_file])
        = Inr (before @ [parse_mod (write_mod n md)])"
proof -
  obtain older where older:
    "(case fs xml_file of
        None \<Rightarrow> Inr [md]
      | Some _ \<Rightarrow> bind (parseXML fs [xml_file]) (\<lambda>old. Inr (insert_loop old [md])))
     = Inr (older @ [md])"
    using mod_dicts_shape by blast
  define n where "n = length (older @ [md])"
  define fs' where "fs' = fs(xml_file \<mapsto> map (write_mod n) (older @ [md]))"
  have ok: "p \<in> dom fs' \<or> path_name p = ''usermod.xml''"
    if "p \<in> set (map (joinpath pkg) (unimod_xml_names self))" for p
    using that paths by (auto simp: fs'_def)
  obtain dl0 where dl0: "parseXML_loop fs' (map (joinpath pkg) (unimod_xml_names self)) [] = Inr ([] @ dl0)"
    using parseXML_loop_ok [of "map (joinpath pkg) (unimod_xml_names self)" fs' "[]"] ok by blast
  define before where "before = dl0 @ map parse_mod (map (write_mod n) older)"
  have parse: "parseXML fs' (map (joinpath pkg) (unimod_xml_names self) @ [xml_file])
      = Inr (before @ [parse_mod (write_mod n md)])"
    using dl0 by (simp add: parseXML_def parseXML_loop_append bind_def fs'_def before_def)
  have rep: "reparseXML fs' self (map (joinpath pkg) (unimod_xml_names self) @ [xml_file]) =
        Inr (self\<lparr>u_data_list := Some (before @ [parse_mod (write_mod n md)]),
                  u_mapper := Some (initialize_mapper (before @ [parse_mod (write_mod n md)]))\<rparr>)"
    by (simp add: reparseXML_def parse bind_def)
  have "writeXML pkg fs self md arg =
        Inr (fs', self\<lparr>u_data_list := Some (before @ [parse_mod (write_mod n md)]),
                         u_mapper := Some (initialize_mapper (before @ [parse_mod (write_mod n md)]))\<rparr>)"
    using rep unfolding writeXML_def Let_def target [symmetric] older fs'_def n_def
    by (simp add: bind_def)
  with parse show ?thesis by blast
qed


lemma properties_cached:
  "u_data_list self = Some dl \<Longrightarrow> u_mapper self = Some (initialize_mapper dl) \<Longrightarrow>
     properties fs self = Inr (built dl, self)"
  by (simp add: properties_def mapper_property_def data_list_property_def bind_def built_def)

lemma last_position:
  assumes "dl \<noteq> []"
  shows "length dl - 1 \<in> positions dl (KStr (unimodname (last dl)))"
  using assms by (simp add: positions_def record_keys_def last_conv_nth)

text \<open>
  C9, as amended: when every listed file exists, is the file written or is a
  \<^verbatim>\<open>usermod.xml\<close>, \<^verbatim>\<open>writeXML\<close> returns, and it has replaced the cached record store by
  the parse of the listed files followed by the written file and the cached index by
  the index built from that store, which is what a lookup afterwards reads. The written
  entry is the last record of the store, with the written name and mass and the written
  composition without its zero counts; the list variants asked with its name include
  that mass and composition; the first variants return them when every record
  registered under the name carries them.
\<close>

theorem writeXML_rebuild_and_lookup:
  assumes "\<forall>p\<in>set (unimod_xml_names self).
             joinpath pkg p \<in> dom fs \<or> joinpath pkg p = overlay_path pkg arg
             \<or> path_name (joinpath pkg p) = ''usermod.xml''"
    and "distinct (map fst (md_composition md))"
  shows "\<exists>fs' self' dl.
      writeXML pkg fs self md arg = Inr (fs', self')
    \<and> parseXML fs' (map (joinpath pkg) (unimod_xml_names self) @ [overlay_path pkg arg]) = Inr dl
    \<and> u_data_list self' = Some dl \<and> u_mapper self' = Some (initialize_mapper dl)
    \<and> properties fs' self' = Inr (built dl, self')
    \<and> dl \<noteq> [] \<and> unimodname (last dl) = md_name md \<and> mono_mass (last dl) = md_mass md
    \<and> map_of (element (last dl)) = map_of (without_zero_counts (md_composition md))
    \<and> (\<exists>ms. name2mass_list (built dl) (VStr (md_name md)) = Inr ms \<and> md_mass md \<in> set ms)
    \<and> (\<exists>cs. name2composition_list (built dl) (VStr (md_name md)) = Inr cs
             \<and> element (last dl) \<in> set cs)
    \<and> ((\<forall>r\<in>set dl. KStr (md_name md) \<in> set (record_keys r) \<longrightarrow>
                mono_mass r = md_mass md \<and> element r = element (last dl)) \<longrightarrow>
          name2first_mass (built dl) (VStr (md_name md)) = Inr (Some (md_mass md))
          \<and> name2first_composition (built dl) (VStr (md_name md)) = Inr (Some (element (last dl))))"
proof -
  obtain fs' before n where
    w: "writeXML pkg fs self md arg =
        Inr (fs', self\<lparr>u_data_list := Some (before @ [parse_mod (write_mod n md)]),
                         u_mapper := Some (initialize_mapper (before @ [parse_mod (write_mod n md)]))\<rparr>)"
    and p: "parseXML fs' (map (joinpath pkg) (unimod_xml_names self) @ [overlay_path pkg arg])
        = Inr (before @ [parse_mod (write_mod n md)])"
    using writeXML_result [of self pkg fs "overlay_path pkg arg" arg md] assms(1)
    by (auto simp: overlay_path_def)
  define dl where "dl = before @ [parse_mod (write_mod n md)]"
  define self' where "self' = self\<lparr>u_data_list := Some dl, u_mapper := Some (initialize_mapper dl)\<rparr>"
  define k where "k = KStr (md_name md)"
  have ne: "dl \<noteq> []" and last: "last dl = parse_mod (write_mod n md)"
    by (simp_all add: dl_def)
  have nm: "unimodname (last dl) = md_name md" and ms: "mono_mass (last dl) = md_mass md"
    and el: "map_of (element (last dl)) = map_of (without_zero_counts (md_composition md))"
    using parse_written [OF assms(2), of n] by (simp_all add: last)
  have pr: "properties fs' self' = Inr (built dl, self')"
    by (rule properties_cached) (simp_all add: self'_def)
  have pos: "length dl - 1 \<in> positions dl k"
    using last_position [OF ne] by (simp add: nm k_def)
  then have hit: "length dl - 1 \<in> set (hits k 0 dl)" by (simp add: set_hits_0)
  have lastnth: "dl ! (length dl - 1) = last dl" using ne by (simp add: last_conv_nth)
  have lm: "\<exists>ms. name2mass_list (built dl) (VStr (md_name md)) = Inr ms \<and> md_mass md \<in> set ms"
    using hit lastnth ms by (force simp: get_list_lookups_built k_def)
  have lc: "\<exists>cs. name2composition_list (built dl) (VStr (md_name md)) = Inr cs
             \<and> element (last dl) \<in> set cs"
    using hit lastnth by (force simp: get_list_lookups_built k_def)
  have first: "name2first_mass (built dl) (VStr (md_name md)) = Inr (Some (md_mass md))
          \<and> name2first_composition (built dl) (VStr (md_name md)) = Inr (Some (element (last dl)))"
    if all: "\<forall>r\<in>set dl. k \<in> set (record_keys r) \<longrightarrow>
                mono_mass r = md_mass md \<and> element r = element (last dl)"
  proof -
    have nonempty: "positions dl k \<noteq> {}" using pos by auto
    then have "Min (positions dl k) \<in> positions dl k"
      by (metis List.finite_set Min_in set_hits_0)
    then have "dl ! Min (positions dl k) \<in> set dl"
      and "k \<in> set (record_keys (dl ! Min (positions dl k)))"
      by (simp_all add: positions_def)
    with all have "mono_mass (dl ! Min (positions dl k)) = md_mass md"
      and "element (dl ! Min (positions dl k)) = element (last dl)" by auto
    then show ?thesis using nonempty
      by (simp add: name2first_mass_def name2first_composition_def first_lookup_built
          lowest_match_def k_def [symmetric])
  qed
  have "writeXML pkg fs self md arg = Inr (fs', self')"
    and "parseXML fs' (map (joinpath pkg) (unimod_xml_names self) @ [overlay_path pkg arg]) = Inr dl"
    and "u_data_list self' = Some dl" and "u_mapper self' = Some (initialize_mapper dl)"
    using w p by (simp_all add: dl_def self'_def)
  with pr ne nm ms el lm lc first show ?thesis unfolding k_def by blast
qed

theorem writeXML_rebuild_and_lookup_witness:
  "(case writeXML ''/pkg'' files0 (init ''/pkg'' []) overlay_entry None of
      Inl err \<Rightarrow> False
    | Inr (fs', self') \<Rightarrow>
        u_data_list self' = Some after_write \<and> u_mapper self' = Some (initialize_mapper after_write))
   \<and> name2first_mass (built after_write) (VStr ''MyMod'') = Inr (Some (3 / 2))
   \<and> name2first_composition (built after_write) (VStr ''MyMod'') = Inr (Some [(''C'', 2), (''O'', 1)])"
proof -
  have h1: "\<forall>p\<in>set (unimod_xml_names (init ''/pkg'' [])).
             joinpath ''/pkg'' p \<in> dom files0 \<or> joinpath ''/pkg'' p = overlay_path ''/pkg'' None
             \<or> path_name (joinpath ''/pkg'' p) = ''usermod.xml''"
    by (simp add: init_def joinpath_def path_name_def files0_def overlay_path_def)
  have h2: "distinct (map fst (md_composition overlay_entry))"
    by (simp add: overlay_entry_def)
  have e: "(case writeXML ''/pkg'' files0 (init ''/pkg'' []) overlay_entry None of
              Inl err \<Rightarrow> None | Inr (fs', self') \<Rightarrow> u_data_list self') = Some after_write"
    by code_simp
  have nm: "md_name overlay_entry = ''MyMod''" "md_mass overlay_entry = 3 / 2"
    by (simp_all add: overlay_entry_def)
  have all: "\<forall>r\<in>set after_write. KStr ''MyMod'' \<in> set (record_keys r) \<longrightarrow>
                mono_mass r = 3 / 2 \<and> element r = element (last after_write)"
    by code_simp
  have la: "element (last after_write) = [(''C'', 2), (''O'', 1)]"
    by (simp add: after_write_def)
  from writeXML_rebuild_and_lookup [OF h1 h2] obtain fs' self' dl where
    w: "writeXML ''/pkg'' files0 (init ''/pkg'' []) overlay_entry None = Inr (fs', self')"
    and c: "u_data_list self' = Some dl" "u_mapper self' = Some (initialize_mapper dl)"
    and f: "(\<forall>r\<in>set dl. KStr (md_name overlay_entry) \<in> set (record_keys r) \<longrightarrow>
                mono_mass r = md_mass overlay_entry \<and> element r = element (last dl)) \<longrightarrow>
          name2first_mass (built dl) (VStr (md_name overlay_entry)) = Inr (Some (md_mass overlay_entry))
          \<and> name2first_composition (built dl) (VStr (md_name overlay_entry)) = Inr (Some (element (last dl)))"
    by blast
  have dl: "dl = after_write" using e w c by simp
  show ?thesis using w c f all la by (simp add: dl nm)
qed

text \<open>
  C9 as stated fails. Written with the composition C 2, H 0, the entry is found under
  its name with the composition C 2 only: the parser drops the zero count. Written
  after an entry of the same name, the entry of mass 2 is not what the first variant
  returns: it returns the mass 3/2 of the older entry, which has the lower position.
\<close>

theorem writeXML_round_trip_counterexample:
  "write_then ''/pkg'' files0 (init ''/pkg'' []) zero_count_entry None name2composition_list (VStr ''MyMod'')
     = Inr (Inr [[(''C'', 2)], [(''C'', 2)]])
   \<and> map_of [(''C'', 2)] ''H'' \<noteq> map_of (md_composition zero_count_entry) ''H''
   \<and> second_write_first_mass = Inr (Inr (Some (3 / 2)))
   \<and> md_mass same_name_entry = 2"
  by code_simp

end
